theory Spec2Isabelle
  imports Main "HOL-Library.Char_ord" "HOL-Library.List_Lexorder" "HOL-Library.Product_Lexorder"
    "HOL-Library.Option_ord"
begin

section \<open>Data model (core/models.py)\<close>

text \<open>
  Amounts are \<open>Decimal\<close> values with two fractional digits; they are modelled as the
  integer number of hundredths, so \<open>Decimal("1150.00")\<close> is \<open>115000\<close>. Only sums,
  differences and comparisons are taken, which are exact on both sides.
\<close>

type_synonym decimal = int

text \<open>\<open>datetime.date\<close>: a calendar date, compared field by field.\<close>

datatype date = Date (date_year: nat) (date_month: nat) (date_day: nat)

definition date_le :: "date \<Rightarrow> date \<Rightarrow> bool" where
  "date_le a b =
     (date_year a < date_year b
      \<or> (date_year a = date_year b
          \<and> (date_month a < date_month b
              \<or> (date_month a = date_month b \<and> date_day a \<le> date_day b))))"

datatype account_type = ASSET | LIABILITY | EQUITY | INCOME | EXPENSE

datatype status = DRAFT | POSTED

text \<open>
  The errors of the system. \<open>clean\<close> raises \<open>ValidationError\<close> with two messages:
  the closed-period one is \<open>PeriodClosedError\<close>, the not-balanced one is
  \<open>UnbalancedEntryError\<close>. A violated check constraint of \<open>JournalLine\<close> is
  \<open>LineAmountInvariantError\<close>, a violated foreign key \<open>ReferentialIntegrityError\<close>,
  and \<open>ValueError\<close> is Python's.
\<close>

datatype error =
    PeriodClosedError
  | UnbalancedEntryError
  | LineAmountInvariantError
  | ReferentialIntegrityError
  | ValueError

record FiscalPeriod =
  fp_year :: int
  fp_month :: int
  is_closed :: bool

record Account =
  acc_id :: nat
  acc_code :: string
  acc_name :: string
  acc_type :: account_type
  acc_parent :: "nat option"

record JournalEntry =
  pk :: "nat option"
  je_date :: "date option"
  description :: string
  status :: status
  created_by :: "nat option"

record JournalLine =
  jl_id :: nat
  entry_id :: nat
  account_id :: nat
  line_no :: nat
  debit :: decimal
  credit :: decimal

text \<open>The stored tables.\<close>

record ledger =
  accounts :: "Account list"
  periods :: "FiscalPeriod list"
  entries :: "JournalEntry list"
  lines :: "JournalLine list"

text \<open>\<open>QuerySet.first()\<close>: the first row, or \<open>None\<close>.\<close>

definition first :: "'a list \<Rightarrow> 'a option" where
  "first xs = (case xs of [] \<Rightarrow> None | x # _ \<Rightarrow> Some x)"

text \<open>\<open>unique_together = ("year", "month")\<close> of \<open>FiscalPeriod\<close>.\<close>

definition period_unique :: "ledger \<Rightarrow> bool" where
  "period_unique db = distinct (map (\<lambda>p. (fp_year p, fp_month p)) (periods db))"

section \<open>JournalEntry: derived totals and validation\<close>

text \<open>
  \<open>self.lines.all()\<close> of the stored entry with primary key \<open>k\<close>. The rows come back
  in the order of \<open>Meta.ordering\<close>; only sums are taken over them, so the table order is
  kept here.
\<close>

definition entry_lines :: "ledger \<Rightarrow> nat \<Rightarrow> JournalLine list" where
  "entry_lines db k = filter (\<lambda>l. entry_id l = k) (lines db)"

definition total_debit :: "ledger \<Rightarrow> nat \<Rightarrow> decimal" where
  "total_debit db k = sum_list (map debit (entry_lines db k))"

definition total_credit :: "ledger \<Rightarrow> nat \<Rightarrow> decimal" where
  "total_credit db k = sum_list (map credit (entry_lines db k))"

definition is_balanced :: "ledger \<Rightarrow> nat \<Rightarrow> bool" where
  "is_balanced db k = (total_debit db k = total_credit db k)"

text \<open>
  The period check of \<open>clean\<close>: \<open>FiscalPeriod.objects.filter(year=..., month=...).first()\<close>
  and \<open>per and per.is_closed\<close>; skipped when the entry has no date.
\<close>

definition period_closed :: "ledger \<Rightarrow> JournalEntry \<Rightarrow> bool" where
  "period_closed db self =
     (case je_date self of
        None \<Rightarrow> False
      | Some d \<Rightarrow>
          (case first (filter (\<lambda>p. fp_year p = int (date_year d) \<and> fp_month p = int (date_month d))
                              (periods db)) of
             None \<Rightarrow> False
           | Some per \<Rightarrow> is_closed per))"

text \<open>\<open>self.pk\<close> as a truth value: \<open>None\<close> and \<open>0\<close> are false.\<close>

definition has_pk :: "JournalEntry \<Rightarrow> bool" where
  "has_pk self = (case pk self of None \<Rightarrow> False | Some k \<Rightarrow> k \<noteq> 0)"

definition clean :: "ledger \<Rightarrow> JournalEntry \<Rightarrow> error + unit" where
  "clean db self =
     (if period_closed db self then Inl PeriodClosedError
      else (case pk self of
              None \<Rightarrow> Inr ()
            | Some k \<Rightarrow>
                if k = 0 then Inr ()
                else if status self = POSTED \<and> total_debit db k \<noteq> total_credit db k
                     then Inl UnbalancedEntryError
                else Inr ()))"

text \<open>
  A validated save of an entry (the form path: \<open>full_clean\<close>, which calls \<open>clean\<close>,
  then \<open>save\<close>): a new entry gets the next primary key, an existing one replaces its row.
\<close>

definition next_pk :: "JournalEntry list \<Rightarrow> nat" where
  "next_pk es = Suc (fold max (map (\<lambda>e. case pk e of None \<Rightarrow> 0 | Some k \<Rightarrow> k) es) 0)"

definition save_entry :: "ledger \<Rightarrow> JournalEntry \<Rightarrow> error + ledger" where
  "save_entry db self =
     (case clean db self of
        Inl err \<Rightarrow> Inl err
      | Inr _ \<Rightarrow>
          if has_pk self
          then Inr (db\<lparr>entries := map (\<lambda>e. if pk e = pk self then self else e) (entries db)\<rparr>)
          else Inr (db\<lparr>entries := entries db @ [self\<lparr>pk := Some (next_pk (entries db))\<rparr>]\<rparr>))"

section \<open>JournalLine: check constraints\<close>

definition chk_no_both_positive_debit_credit :: "JournalLine \<Rightarrow> bool" where
  "chk_no_both_positive_debit_credit l = (\<not> debit l > 0 \<or> credit l = 0)"

definition chk_no_both_positive_credit_debit :: "JournalLine \<Rightarrow> bool" where
  "chk_no_both_positive_credit_debit l = (\<not> credit l > 0 \<or> debit l = 0)"

definition chk_must_have_amount :: "JournalLine \<Rightarrow> bool" where
  "chk_must_have_amount l = (debit l > 0 \<or> credit l > 0)"

definition constraints_ok :: "JournalLine \<Rightarrow> bool" where
  "constraints_ok l =
     (chk_no_both_positive_debit_credit l
      \<and> chk_no_both_positive_credit_debit l
      \<and> chk_must_have_amount l)"

text \<open>
  A write of a line: the table's check constraints and its two foreign keys decide,
  nothing else does (no validation of the owning entry runs on a line write). A line
  whose id is stored already replaces that row.
\<close>

definition save_line :: "ledger \<Rightarrow> JournalLine \<Rightarrow> error + ledger" where
  "save_line db l =
     (if \<not> constraints_ok l then Inl LineAmountInvariantError
      else if Some (entry_id l) \<notin> set (map pk (entries db))
              \<or> account_id l \<notin> set (map acc_id (accounts db))
           then Inl ReferentialIntegrityError
      else if jl_id l \<in> set (map jl_id (lines db))
           then Inr (db\<lparr>lines := map (\<lambda>x. if jl_id x = jl_id l then l else x) (lines db)\<rparr>)
      else Inr (db\<lparr>lines := lines db @ [l]\<rparr>))"

text \<open>The line-amount invariant in the words of the specification.\<close>

definition line_amount_invariant :: "JournalLine \<Rightarrow> bool" where
  "line_amount_invariant l =
     (0 \<le> debit l \<and> 0 \<le> credit l
      \<and> \<not> (0 < debit l \<and> 0 < credit l)
      \<and> (0 < debit l \<or> 0 < credit l)
      \<and> ((0 < debit l \<and> credit l = 0) \<or> (0 < credit l \<and> debit l = 0)))"


section \<open>Queries: joins and aggregates\<close>

text \<open>
  The lookups \<open>entry__date\<close> and \<open>account__code\<close> join a line with its entry and its
  account. The joins are inner joins: a line whose row is missing drops out.
\<close>

definition entry_of :: "ledger \<Rightarrow> JournalLine \<Rightarrow> JournalEntry option" where
  "entry_of db l = find (\<lambda>e. pk e = Some (entry_id l)) (entries db)"

definition entry_date :: "ledger \<Rightarrow> JournalLine \<Rightarrow> date option" where
  "entry_date db l = (case entry_of db l of None \<Rightarrow> None | Some e \<Rightarrow> je_date e)"

definition account_of :: "ledger \<Rightarrow> JournalLine \<Rightarrow> Account option" where
  "account_of db l = find (\<lambda>a. acc_id a = account_id l) (accounts db)"

text \<open>\<open>qs.filter(entry__date__...)\<close> with the condition \<open>p\<close> on the entry's date.\<close>

definition date_filter :: "ledger \<Rightarrow> (date \<Rightarrow> bool) \<Rightarrow> JournalLine list \<Rightarrow> JournalLine list" where
  "date_filter db p ls =
     filter (\<lambda>l. case entry_date db l of None \<Rightarrow> False | Some d \<Rightarrow> p d) ls"

text \<open>The aggregate \<open>Sum\<close>: \<open>None\<close> over no rows.\<close>

definition Sum_agg :: "decimal list \<Rightarrow> decimal option" where
  "Sum_agg xs = (if xs = [] then None else Some (sum_list xs))"

text \<open>\<open>v or Decimal("0.00")\<close>: the right operand when \<open>v\<close> is \<open>None\<close> or zero.\<close>

definition or_zero :: "decimal option \<Rightarrow> decimal" where
  "or_zero v = (case v of None \<Rightarrow> 0 | Some x \<Rightarrow> if x = 0 then 0 else x)"

text \<open>
  \<open>lines.values(...).annotate(debit_sum=Sum("debit"), credit_sum=Sum("credit"))
  .order_by("account__code")\<close>: the lines joined with their accounts, one group per
  value of the selected account columns \<open>key\<close>, in the order of the account code.
\<close>

definition group_sums ::
  "(Account \<Rightarrow> 'k) \<Rightarrow> ('k \<Rightarrow> string) \<Rightarrow> ledger \<Rightarrow> JournalLine list
     \<Rightarrow> ('k \<times> decimal option \<times> decimal option) list" where
  "group_sums key code_of db ls =
     (let joined = List.map_filter
                     (\<lambda>l. case account_of db l of None \<Rightarrow> None | Some a \<Rightarrow> Some (key a, l)) ls
      in map (\<lambda>k. (k,
                    Sum_agg (map (\<lambda>j. debit (snd j)) (filter (\<lambda>j. fst j = k) joined)),
                    Sum_agg (map (\<lambda>j. credit (snd j)) (filter (\<lambda>j. fst j = k) joined))))
             (sort_key code_of (remdups (map fst joined))))"

section \<open>Dates as text\<close>

definition is_leap :: "nat \<Rightarrow> bool" where
  "is_leap y = (y mod 4 = 0 \<and> (y mod 100 \<noteq> 0 \<or> y mod 400 = 0))"

definition days_in_month :: "nat \<Rightarrow> nat \<Rightarrow> nat" where
  "days_in_month y m =
     (if m = 2 then (if is_leap y then 29 else 28)
      else if m = 4 \<or> m = 6 \<or> m = 9 \<or> m = 11 then 30
      else 31)"

text \<open>The dates \<open>datetime.date\<close> can hold (years 1 to 9999).\<close>

definition valid_date :: "date \<Rightarrow> bool" where
  "valid_date d =
     (1 \<le> date_year d \<and> date_year d \<le> 9999
      \<and> 1 \<le> date_month d \<and> date_month d \<le> 12
      \<and> 1 \<le> date_day d \<and> date_day d \<le> days_in_month (date_year d) (date_month d))"

text \<open>The constructor \<open>date(year, month, day)\<close>: \<open>ValueError\<close> outside the range.\<close>

definition mk_date :: "int \<Rightarrow> int \<Rightarrow> int \<Rightarrow> error + date" where
  "mk_date y m d =
     (if 0 \<le> y \<and> 0 \<le> m \<and> 0 \<le> d \<and> valid_date (Date (nat y) (nat m) (nat d))
      then Inr (Date (nat y) (nat m) (nat d))
      else Inl ValueError)"

definition digit_char :: "nat \<Rightarrow> char" where
  "digit_char k = char_of (48 + k)"

definition is_digit :: "char \<Rightarrow> bool" where
  "is_digit c = (48 \<le> (of_char c :: nat) \<and> (of_char c :: nat) \<le> 57)"

definition digit_val :: "char \<Rightarrow> nat" where
  "digit_val c = of_char c - 48"

definition digits_val :: "string \<Rightarrow> nat" where
  "digits_val s = foldl (\<lambda>n c. 10 * n + digit_val c) 0 s"

text \<open>\<open>date.isoformat()\<close>: \<open>YYYY-MM-DD\<close>, zero padded.\<close>

definition isoformat :: "date \<Rightarrow> string" where
  "isoformat d =
     [digit_char (date_year d div 1000 mod 10), digit_char (date_year d div 100 mod 10),
      digit_char (date_year d div 10 mod 10), digit_char (date_year d mod 10), CHR ''-'',
      digit_char (date_month d div 10 mod 10), digit_char (date_month d mod 10), CHR ''-'',
      digit_char (date_day d div 10 mod 10), digit_char (date_day d mod 10)]"

text \<open>
  \<open>date.fromisoformat(s)\<close> on the format \<open>YYYY-MM-DD\<close>, the format of
  \<open>isoformat\<close> and the only one Python takes before version 3.11: the date, or
  \<open>ValueError\<close> for a text that is not such a date. (From version 3.11 on the basic
  form \<open>YYYYMMDD\<close> and the week forms parse too; they are not modelled. What is
  proved of \<open>mizan\<close> below reads this function at \<open>isoformat\<close>'s own output, at
  \<open>YYYY-MM-DD\<close> texts and at \<open>abc\<close>, or holds whatever it returns.)
\<close>

definition fromisoformat :: "string \<Rightarrow> error + date" where
  "fromisoformat s =
     (if length s = 10 \<and> s ! 4 = CHR ''-'' \<and> s ! 7 = CHR ''-''
         \<and> list_all is_digit (take 4 s)
         \<and> list_all is_digit (take 2 (drop 5 s))
         \<and> list_all is_digit (drop 8 s)
         \<and> valid_date (Date (digits_val (take 4 s)) (digits_val (take 2 (drop 5 s)))
                             (digits_val (drop 8 s)))
      then Inr (Date (digits_val (take 4 s)) (digits_val (take 2 (drop 5 s)))
                     (digits_val (drop 8 s)))
      else Inl ValueError)"

section \<open>Account.get_balance\<close>





section \<open>Trial balance (core/views.py, mizan)\<close>

text \<open>\<open>request.GET.get(k) or default\<close>: the default for a missing or empty parameter.\<close>

definition get_or :: "string option \<Rightarrow> string \<Rightarrow> string" where
  "get_or v dflt = (case v of None \<Rightarrow> dflt | Some s \<Rightarrow> if s = [] then dflt else s)"

text \<open>The second statement of the \<open>try\<close> block: the upper bound.\<close>

definition mizan_end :: "ledger \<Rightarrow> string \<Rightarrow> JournalLine list \<Rightarrow> JournalLine list" where
  "mizan_end db end_str ls =
     (if end_str \<noteq> []
      then (case fromisoformat end_str of
              Inl _ \<Rightarrow> ls
            | Inr d_end \<Rightarrow> date_filter db (\<lambda>d. date_le d d_end) ls)
      else ls)"

text \<open>
  The \<open>try\<close> block of \<open>mizan\<close>. A \<open>ValueError\<close> of the first \<open>fromisoformat\<close> leaves
  the block at once (\<open>except ValueError: pass\<close>), so the second statement does not run
  and \<open>lines\<close> keeps the value it had.
\<close>

definition mizan_lines :: "ledger \<Rightarrow> string \<Rightarrow> string \<Rightarrow> JournalLine list" where
  "mizan_lines db start_str end_str =
     (if start_str \<noteq> []
      then (case fromisoformat start_str of
              Inl _ \<Rightarrow> lines db
            | Inr d_start \<Rightarrow> mizan_end db end_str (date_filter db (\<lambda>d. date_le d_start d) (lines db)))
      else mizan_end db end_str (lines db))"

record mizan_row =
  row_code :: string
  row_name :: string
  row_debit :: decimal
  row_credit :: decimal
  row_balance :: decimal

text \<open>The loop \<open>for r in qs\<close> of \<open>mizan\<close>, with its three accumulators.\<close>

fun mizan_loop ::
  "((string \<times> string) \<times> decimal option \<times> decimal option) list
     \<Rightarrow> mizan_row list \<Rightarrow> decimal \<Rightarrow> decimal \<Rightarrow> mizan_row list \<times> decimal \<times> decimal" where
  "mizan_loop [] rows td tc = (rows, td, tc)"
| "mizan_loop (r # qs) rows td tc =
     (let d = or_zero (fst (snd r));
          c = or_zero (snd (snd r))
      in mizan_loop qs
           (rows @ [\<lparr>row_code = fst (fst r), row_name = snd (fst r),
                      row_debit = d, row_credit = c, row_balance = d - c\<rparr>])
           (td + d) (tc + c))"

record mizan_context =
  ctx_rows :: "mizan_row list"
  ctx_total_debit :: decimal
  ctx_total_credit :: decimal
  ctx_total_balance :: decimal
  ctx_start :: string
  ctx_end :: string
  ctx_rows_count :: nat
  ctx_lines_count :: nat

text \<open>The part of \<open>mizan\<close> after the \<open>try\<close> block: the report over the selected lines.\<close>

definition mizan_report :: "ledger \<Rightarrow> JournalLine list \<Rightarrow> string \<Rightarrow> string \<Rightarrow> mizan_context" where
  "mizan_report db ls start_str end_str =
     (let qs = group_sums (\<lambda>a. (acc_code a, acc_name a)) fst db ls;
          (rows, total_debit, total_credit) = mizan_loop qs [] 0 0
      in \<lparr>ctx_rows = rows, ctx_total_debit = total_debit, ctx_total_credit = total_credit,
          ctx_total_balance = total_debit - total_credit,
          ctx_start = start_str, ctx_end = end_str,
          ctx_rows_count = length rows, ctx_lines_count = length ls\<rparr>)"

text \<open>
  \<open>mizan\<close>: \<open>today\<close> is \<open>date.today()\<close>, \<open>start\<close> and \<open>end_p\<close> are the request's
  parameters \<open>start\<close> and \<open>end\<close> (\<open>None\<close> when missing).
\<close>

definition mizan :: "ledger \<Rightarrow> date \<Rightarrow> string option \<Rightarrow> string option \<Rightarrow> mizan_context" where
  "mizan db today start end_p =
     (let first_day = Date (date_year today) (date_month today) 1;
          start_str = get_or start (isoformat first_day);
          end_str = get_or end_p (isoformat today)
      in mizan_report db (mizan_lines db start_str end_str) start_str end_str)"

section \<open>Journal list (core/views.py, JournalEntryListView.get_queryset)\<close>

definition date_key :: "date \<Rightarrow> nat \<times> nat \<times> nat" where
  "date_key d = (date_year d, date_month d, date_day d)"

text \<open>
  \<open>parse_date\<close> is the framework's: it is a parameter here, giving \<open>Inr None\<close> for a text
  it does not take for a date, \<open>Inr (Some d)\<close> for a date and \<open>Inl ValueError\<close> where it
  raises.
\<close>

definition get_queryset ::
  "(string \<Rightarrow> error + date option) \<Rightarrow> ledger \<Rightarrow> string option \<Rightarrow> string option
     \<Rightarrow> error + JournalEntry list" where
  "get_queryset parse_date db start_str end_str =
     (let qs = rev (sort_key (\<lambda>e. (map_option date_key (je_date e), pk e)) (entries db))
      in case (case start_str of
                 None \<Rightarrow> Inr None
               | Some s \<Rightarrow> if s = [] then Inr None else parse_date s) of
           Inl err \<Rightarrow> Inl err
         | Inr start \<Rightarrow>
             (case (case end_str of
                      None \<Rightarrow> Inr None
                    | Some s \<Rightarrow> if s = [] then Inr None else parse_date s) of
                Inl err \<Rightarrow> Inl err
              | Inr end_d \<Rightarrow>
                  (let qs = (case start of
                               None \<Rightarrow> qs
                             | Some ds \<Rightarrow>
                                 filter (\<lambda>e. case je_date e of
                                               None \<Rightarrow> False
                                             | Some d \<Rightarrow> date_le ds d) qs);
                       qs = (case end_d of
                               None \<Rightarrow> qs
                             | Some de \<Rightarrow>
                                 filter (\<lambda>e. case je_date e of
                                               None \<Rightarrow> False
                                             | Some d \<Rightarrow> date_le d de) qs)
                   in Inr qs)))"

section \<open>Balance sheet (core/services/balance_sheet.py)\<close>

definition account_balance_until :: "ledger \<Rightarrow> Account \<Rightarrow> int \<Rightarrow> error + decimal" where
  "account_balance_until db acc year =
     (case mk_date year 12 31 of
        Inl err \<Rightarrow> Inl err
      | Inr cutoff \<Rightarrow>
          (let qs = date_filter db (\<lambda>d. date_le d cutoff)
                      (filter (\<lambda>l. account_id l = acc_id acc) (lines db));
               total_debit = or_zero (Sum_agg (map debit qs));
               total_credit = or_zero (Sum_agg (map credit qs))
           in if acc_type acc = ASSET \<or> acc_type acc = EXPENSE
              then Inr (total_debit - total_credit)
              else Inr (total_credit - total_debit)))"

record balance_row =
  br_code :: string
  br_name :: string
  br_balance :: decimal

record balance_acc =
  ba_assets :: "balance_row list"
  ba_liabilities :: "balance_row list"
  ba_equities :: "balance_row list"
  ba_income_total :: decimal
  ba_expense_total :: decimal

text \<open>The loop \<open>for acc in Account.objects.all().order_by("code")\<close>.\<close>

fun balance_loop :: "ledger \<Rightarrow> int \<Rightarrow> Account list \<Rightarrow> balance_acc \<Rightarrow> error + balance_acc" where
  "balance_loop db year [] st = Inr st"
| "balance_loop db year (acc # accs) st =
     (case account_balance_until db acc year of
        Inl err \<Rightarrow> Inl err
      | Inr bal \<Rightarrow>
          if bal = 0 then balance_loop db year accs st
          else (case acc_type acc of
                  ASSET \<Rightarrow>
                    balance_loop db year accs
                      (st\<lparr>ba_assets := ba_assets st
                            @ [\<lparr>br_code = acc_code acc, br_name = acc_name acc, br_balance = bal\<rparr>]\<rparr>)
                | LIABILITY \<Rightarrow>
                    balance_loop db year accs
                      (st\<lparr>ba_liabilities := ba_liabilities st
                            @ [\<lparr>br_code = acc_code acc, br_name = acc_name acc, br_balance = bal\<rparr>]\<rparr>)
                | EQUITY \<Rightarrow>
                    balance_loop db year accs
                      (st\<lparr>ba_equities := ba_equities st
                            @ [\<lparr>br_code = acc_code acc, br_name = acc_name acc, br_balance = bal\<rparr>]\<rparr>)
                | INCOME \<Rightarrow>
                    balance_loop db year accs (st\<lparr>ba_income_total := ba_income_total st + bal\<rparr>)
                | EXPENSE \<Rightarrow>
                    balance_loop db year accs (st\<lparr>ba_expense_total := ba_expense_total st + bal\<rparr>)))"

text \<open>
  The name of the synthetic equity line, "Donem Net Kar/Zarari" with its Turkish
  letters, as the bytes of its UTF-8 text.
\<close>

definition DNET_name :: string where
  "DNET_name = ''D'' @ [char_of (0xC3 :: nat), char_of (0xB6 :: nat)] @ ''nem Net K''
     @ [char_of (0xC3 :: nat), char_of (0xA2 :: nat)] @ ''r/Zarar''
     @ [char_of (0xC4 :: nat), char_of (0xB1 :: nat)]"

record balance_sheet =
  bs_assets :: "balance_row list"
  bs_liabilities :: "balance_row list"
  bs_equities :: "balance_row list"
  bs_total_assets :: decimal
  bs_total_liabilities_equity :: decimal
  bs_match :: bool
  bs_net_result :: decimal

definition generate_balance :: "ledger \<Rightarrow> int \<Rightarrow> error + balance_sheet" where
  "generate_balance db year =
     (case balance_loop db year (sort_key acc_code (accounts db))
             \<lparr>ba_assets = [], ba_liabilities = [], ba_equities = [],
              ba_income_total = 0, ba_expense_total = 0\<rparr> of
        Inl err \<Rightarrow> Inl err
      | Inr st \<Rightarrow>
          (let net_result = ba_income_total st - ba_expense_total st;
               equities = (if net_result \<noteq> 0
                           then ba_equities st
                                  @ [\<lparr>br_code = ''DNET'', br_name = DNET_name, br_balance = net_result\<rparr>]
                           else ba_equities st);
               total_assets = (if ba_assets st \<noteq> [] then sum_list (map br_balance (ba_assets st)) else 0);
               total_liabilities = (if ba_liabilities st \<noteq> []
                                    then sum_list (map br_balance (ba_liabilities st)) else 0);
               total_equity = (if equities \<noteq> [] then sum_list (map br_balance equities) else 0)
           in Inr \<lparr>bs_assets = ba_assets st, bs_liabilities = ba_liabilities st,
                   bs_equities = equities, bs_total_assets = total_assets,
                   bs_total_liabilities_equity = total_liabilities + total_equity,
                   bs_match = (total_assets = total_liabilities + total_equity),
                   bs_net_result = net_result\<rparr>))"

section \<open>Income statement (core/services/income_statement.py)\<close>

definition startswith :: "string \<Rightarrow> string \<Rightarrow> bool" where
  "startswith s p = (take (length p) s = p)"

text \<open>The two flags of the loop body, on the grouped row's code and account type.\<close>

definition is_income :: "string \<Rightarrow> account_type \<Rightarrow> bool" where
  "is_income code atype = ((code \<noteq> [] \<and> startswith code ''6'') \<or> atype = INCOME)"

definition is_expense :: "string \<Rightarrow> account_type \<Rightarrow> bool" where
  "is_expense code atype = ((code \<noteq> [] \<and> startswith code ''7'') \<or> atype = EXPENSE)"

record income_row =
  ir_code :: string
  ir_name :: string
  ir_amount :: decimal

record income_acc =
  ia_incomes :: "income_row list"
  ia_expenses :: "income_row list"
  ia_total_income :: decimal
  ia_total_expense :: decimal

fun income_loop ::
  "((string \<times> string \<times> account_type) \<times> decimal option \<times> decimal option) list
     \<Rightarrow> income_acc \<Rightarrow> income_acc" where
  "income_loop [] st = st"
| "income_loop (r # qs) st =
     (let code = fst (fst r);
          name = fst (snd (fst r));
          atype = snd (snd (fst r));
          d = or_zero (fst (snd r));
          c = or_zero (snd (snd r))
      in if \<not> is_income code atype \<and> \<not> is_expense code atype then income_loop qs st
         else if is_income code atype
         then (let amount = c - d
               in if amount = 0 then income_loop qs st
                  else income_loop qs
                         (st\<lparr>ia_incomes := ia_incomes st
                               @ [\<lparr>ir_code = code, ir_name = name, ir_amount = amount\<rparr>],
                             ia_total_income := ia_total_income st + amount\<rparr>))
         else if is_expense code atype
         then (let amount = d - c
               in if amount = 0 then income_loop qs st
                  else income_loop qs
                         (st\<lparr>ia_expenses := ia_expenses st
                               @ [\<lparr>ir_code = code, ir_name = name, ir_amount = amount\<rparr>],
                             ia_total_expense := ia_total_expense st + amount\<rparr>))
         else income_loop qs st)"

record income_statement =
  ist_year :: int
  ist_incomes :: "income_row list"
  ist_expenses :: "income_row list"
  ist_total_income :: decimal
  ist_total_expense :: decimal
  ist_net_result :: decimal
  ist_is_profit :: bool

text \<open>The grouped rows of \<open>generate_income_statement\<close> for the window of the year.\<close>

definition income_qs ::
  "ledger \<Rightarrow> date \<Rightarrow> date
     \<Rightarrow> ((string \<times> string \<times> account_type) \<times> decimal option \<times> decimal option) list" where
  "income_qs db start end_d =
     group_sums (\<lambda>a. (acc_code a, acc_name a, acc_type a)) fst db
       (date_filter db (\<lambda>d. date_le start d \<and> date_le d end_d) (lines db))"

definition generate_income_statement :: "ledger \<Rightarrow> int \<Rightarrow> error + income_statement" where
  "generate_income_statement db year =
     (case mk_date year 1 1 of
        Inl err \<Rightarrow> Inl err
      | Inr start \<Rightarrow>
          (case mk_date year 12 31 of
             Inl err \<Rightarrow> Inl err
           | Inr end_d \<Rightarrow>
               (let st = income_loop (income_qs db start end_d)
                           \<lparr>ia_incomes = [], ia_expenses = [],
                            ia_total_income = 0, ia_total_expense = 0\<rparr>;
                    net_result = ia_total_income st - ia_total_expense st
                in Inr \<lparr>ist_year = year, ist_incomes = ia_incomes st,
                        ist_expenses = ia_expenses st,
                        ist_total_income = ia_total_income st,
                        ist_total_expense = ia_total_expense st,
                        ist_net_result = net_result,
                        ist_is_profit = (net_result \<ge> 0)\<rparr>)))"

section \<open>Backfill of line numbers (core/migrations/0004_fill_line_no.py)\<close>

text \<open>\<open>JournalLine.objects.filter(id=i).update(line_no=c)\<close>.\<close>

definition update_line_no :: "nat \<Rightarrow> nat \<Rightarrow> JournalLine list \<Rightarrow> JournalLine list" where
  "update_line_no i c tbl = map (\<lambda>l. if jl_id l = i then l\<lparr>line_no := c\<rparr> else l) tbl"

text \<open>
  The loop of \<open>forwards\<close> over the rows read by the query, with \<open>current_entry\<close> and
  \<open>counter\<close>, writing to the table \<open>tbl\<close>.
\<close>

fun forwards_loop ::
  "JournalLine list \<Rightarrow> nat option \<Rightarrow> nat \<Rightarrow> JournalLine list \<Rightarrow> JournalLine list" where
  "forwards_loop [] current_entry counter tbl = tbl"
| "forwards_loop (jl # rest) current_entry counter tbl =
     (if Some (entry_id jl) \<noteq> current_entry
      then forwards_loop rest (Some (entry_id jl)) 1 (update_line_no (jl_id jl) 1 tbl)
      else forwards_loop rest current_entry (counter + 1)
             (update_line_no (jl_id jl) (counter + 1) tbl))"

definition forwards :: "ledger \<Rightarrow> ledger" where
  "forwards db =
     db\<lparr>lines := forwards_loop (sort_key (\<lambda>l. (entry_id l, jl_id l)) (lines db)) None 0 (lines db)\<rparr>"

text \<open>Primary keys of the line table are unique.\<close>

definition line_ids_unique :: "ledger \<Rightarrow> bool" where
  "line_ids_unique db = distinct (map jl_id (lines db))"

text \<open>
  A grouped row of the income statement, and what the loop body reads from it: the two
  flags, the two amounts and the line item it appends.
\<close>

type_synonym income_group = "(string \<times> string \<times> account_type) \<times> decimal option \<times> decimal option"

definition row_is_income :: "income_group \<Rightarrow> bool" where
  "row_is_income r = is_income (fst (fst r)) (snd (snd (fst r)))"

definition row_is_expense :: "income_group \<Rightarrow> bool" where
  "row_is_expense r = is_expense (fst (fst r)) (snd (snd (fst r)))"

definition income_amount :: "income_group \<Rightarrow> decimal" where
  "income_amount r = or_zero (snd (snd r)) - or_zero (fst (snd r))"

definition expense_amount :: "income_group \<Rightarrow> decimal" where
  "expense_amount r = or_zero (fst (snd r)) - or_zero (snd (snd r))"

definition income_line :: "income_group \<Rightarrow> decimal \<Rightarrow> income_row" where
  "income_line r amount = \<lparr>ir_code = fst (fst r), ir_name = fst (snd (fst r)), ir_amount = amount\<rparr>"

text \<open>
  The values the loop gives \<open>counter\<close> along the entry ids of the rows it reads, and
  the table after the writes \<open>asg\<close> (pairs of a line id and a number) have been made.
\<close>

fun counters :: "nat list \<Rightarrow> nat option \<Rightarrow> nat \<Rightarrow> nat list" where
  "counters [] current_entry counter = []"
| "counters (e # es) current_entry counter =
     (if Some e \<noteq> current_entry then 1 # counters es (Some e) 1
      else (counter + 1) # counters es current_entry (counter + 1))"

definition set_line_no :: "(nat \<times> nat) list \<Rightarrow> JournalLine \<Rightarrow> JournalLine" where
  "set_line_no asg l = (case map_of asg (jl_id l) of None \<Rightarrow> l | Some c \<Rightarrow> l\<lparr>line_no := c\<rparr>)"

text \<open>The writes of \<open>forwards\<close>: each line id in the order read, with its number.\<close>

definition assignments :: "ledger \<Rightarrow> (nat \<times> nat) list" where
  "assignments db =
     zip (map jl_id (sort_key (\<lambda>l. (entry_id l, jl_id l)) (lines db)))
         (counters (map entry_id (sort_key (\<lambda>l. (entry_id l, jl_id l)) (lines db))) None 0)"

section \<open>Ledger conditions\<close>

text \<open>
  The foreign keys of the line table (both are not null): every line has its entry and
  its account.
\<close>

definition fk_integrity :: "ledger \<Rightarrow> bool" where
  "fk_integrity db =
     (\<forall>l \<in> set (lines db). entry_of db l \<noteq> None \<and> account_of db l \<noteq> None)"

text \<open>Every stored entry is balanced: its lines' debits and credits have the same total.\<close>

definition ledger_balanced :: "ledger \<Rightarrow> bool" where
  "ledger_balanced db =
     (\<forall>e \<in> set (entries db). case pk e of None \<Rightarrow> True | Some k \<Rightarrow> is_balanced db k)"


section \<open>Scenarios\<close>

text \<open>
  A ledger with one account and no entry, a new entry submitted as POSTED, and a
  debit line of 1000.00 for it.
\<close>

definition c1_db0 :: ledger where
  "c1_db0 =
     \<lparr>accounts = [\<lparr>acc_id = 1, acc_code = ''100'', acc_name = ''Cash'', acc_type = ASSET,
                    acc_parent = None\<rparr>],
      periods = [], entries = [], lines = []\<rparr>"

definition c1_entry :: JournalEntry where
  "c1_entry = \<lparr>pk = None, je_date = Some (Date 2026 3 1), description = ''Capital'',
     status = POSTED, created_by = None\<rparr>"

definition c1_line :: JournalLine where
  "c1_line = \<lparr>jl_id = 1, entry_id = 1, account_id = 1, line_no = 1, debit = 100000, credit = 0\<rparr>"

definition c1_db1 :: ledger where
  "c1_db1 = c1_db0\<lparr>entries := [c1_entry\<lparr>pk := Some 1\<rparr>]\<rparr>"

definition c1_db2 :: ledger where
  "c1_db2 = c1_db1\<lparr>lines := [c1_line]\<rparr>"

text \<open>The closed period January 2026 and a draft entry dated in it.\<close>

definition c2_db :: ledger where
  "c2_db = \<lparr>accounts = [], periods = [\<lparr>fp_year = 2026, fp_month = 1, is_closed = True\<rparr>],
     entries = [], lines = []\<rparr>"

definition c2_entry :: JournalEntry where
  "c2_entry = \<lparr>pk = None, je_date = Some (Date 2026 1 15), description = ''Rent'',
     status = DRAFT, created_by = None\<rparr>"



text \<open>
  The reconciliation scenario: accounts 100 (ASSET), 300 (LIABILITY), 500 (EQUITY),
  600 (INCOME) and 700 (EXPENSE); a capital injection of 1000.00 on 2026-03-01, a sale
  of 200.00 on 2026-06-01 and rent of 50.00 paid on 2026-06-02.
\<close>

definition scenario_db :: ledger where
  "scenario_db =
     \<lparr>accounts =
        [\<lparr>acc_id = 1, acc_code = ''100'', acc_name = ''Cash'', acc_type = ASSET, acc_parent = None\<rparr>,
         \<lparr>acc_id = 2, acc_code = ''300'', acc_name = ''Payable'', acc_type = LIABILITY, acc_parent = None\<rparr>,
         \<lparr>acc_id = 3, acc_code = ''500'', acc_name = ''Capital'', acc_type = EQUITY, acc_parent = None\<rparr>,
         \<lparr>acc_id = 4, acc_code = ''600'', acc_name = ''Sales'', acc_type = INCOME, acc_parent = None\<rparr>,
         \<lparr>acc_id = 5, acc_code = ''700'', acc_name = ''Rent'', acc_type = EXPENSE, acc_parent = None\<rparr>],
      periods = [],
      entries =
        [\<lparr>pk = Some 1, je_date = Some (Date 2026 3 1), description = ''Capital injection'',
           status = POSTED, created_by = None\<rparr>,
         \<lparr>pk = Some 2, je_date = Some (Date 2026 6 1), description = ''Sale'',
           status = POSTED, created_by = None\<rparr>,
         \<lparr>pk = Some 3, je_date = Some (Date 2026 6 2), description = ''Rent paid'',
           status = POSTED, created_by = None\<rparr>],
      lines =
        [\<lparr>jl_id = 1, entry_id = 1, account_id = 1, line_no = 1, debit = 100000, credit = 0\<rparr>,
         \<lparr>jl_id = 2, entry_id = 1, account_id = 3, line_no = 2, debit = 0, credit = 100000\<rparr>,
         \<lparr>jl_id = 3, entry_id = 2, account_id = 1, line_no = 1, debit = 20000, credit = 0\<rparr>,
         \<lparr>jl_id = 4, entry_id = 2, account_id = 4, line_no = 2, debit = 0, credit = 20000\<rparr>,
         \<lparr>jl_id = 5, entry_id = 3, account_id = 5, line_no = 1, debit = 5000, credit = 0\<rparr>,
         \<lparr>jl_id = 6, entry_id = 3, account_id = 1, line_no = 2, debit = 0, credit = 5000\<rparr>]\<rparr>"

text \<open>
  Four lines of two entries, stored out of order, each with the default number 1.
\<close>

definition c8_db :: ledger where
  "c8_db =
     \<lparr>accounts = [], periods = [], entries = [],
      lines =
        [\<lparr>jl_id = 3, entry_id = 2, account_id = 1, line_no = 1, debit = 0, credit = 500\<rparr>,
         \<lparr>jl_id = 1, entry_id = 1, account_id = 1, line_no = 1, debit = 700, credit = 0\<rparr>,
         \<lparr>jl_id = 2, entry_id = 2, account_id = 2, line_no = 1, debit = 500, credit = 0\<rparr>,
         \<lparr>jl_id = 4, entry_id = 1, account_id = 2, line_no = 1, debit = 0, credit = 700\<rparr>]\<rparr>"

text \<open>
  An account of type INCOME whose code starts with 7, credited with 100.00 on
  2026-05-01.
\<close>

definition c7_db :: ledger where
  "c7_db =
     \<lparr>accounts =
        [\<lparr>acc_id = 1, acc_code = ''100'', acc_name = ''Cash'', acc_type = ASSET, acc_parent = None\<rparr>,
         \<lparr>acc_id = 2, acc_code = ''700'', acc_name = ''Refunds'', acc_type = INCOME, acc_parent = None\<rparr>],
      periods = [],
      entries =
        [\<lparr>pk = Some 1, je_date = Some (Date 2026 5 1), description = ''Refund received'',
           status = POSTED, created_by = None\<rparr>],
      lines =
        [\<lparr>jl_id = 1, entry_id = 1, account_id = 1, line_no = 1, debit = 10000, credit = 0\<rparr>,
         \<lparr>jl_id = 2, entry_id = 1, account_id = 2, line_no = 2, debit = 0, credit = 10000\<rparr>]\<rparr>"

section \<open>Helper lemmas\<close>

lemma first_filter_unique:
  assumes "distinct (map key xs)" and "x \<in> set xs" and "\<And>y. P y \<longleftrightarrow> key y = key x"
  shows "first (filter P xs) = Some x"
  using assms(1,2)
proof (induction xs)
  case Nil
  then show ?case by simp
next
  case (Cons a xs)
  show ?case
  proof (cases "a = x")
    case True
    then show ?thesis by (simp add: first_def assms(3))
  next
    case False
    with Cons.prems have xin: "x \<in> set xs" by simp
    from Cons.prems xin have "key a \<noteq> key x" by (auto simp: image_iff)
    with Cons xin show ?thesis by (simp add: first_def assms(3))
  qed
qed

lemma first_filter_None: "first (filter P xs) = None \<longleftrightarrow> (\<forall>x\<in>set xs. \<not> P x)"
  by (induction xs) (auto simp: first_def)

lemma period_closed_iff:
  assumes "period_unique db" and "je_date self = Some d"
  shows "period_closed db self \<longleftrightarrow>
     (\<exists>p \<in> set (periods db). fp_year p = int (date_year d)
          \<and> fp_month p = int (date_month d) \<and> is_closed p)"
proof (cases "\<exists>p \<in> set (periods db). fp_year p = int (date_year d)
                 \<and> fp_month p = int (date_month d)")
  case True
  then obtain p where p: "p \<in> set (periods db)" "fp_year p = int (date_year d)"
    "fp_month p = int (date_month d)" by blast
  have dist: "distinct (map (\<lambda>p. (fp_year p, fp_month p)) (periods db))"
    using assms(1) by (simp add: period_unique_def)
  have f: "first (filter (\<lambda>p. fp_year p = int (date_year d) \<and> fp_month p = int (date_month d))
                    (periods db)) = Some p"
  proof (rule first_filter_unique[where key = "\<lambda>p. (fp_year p, fp_month p)"])
    show "distinct (map (\<lambda>p. (fp_year p, fp_month p)) (periods db))" by (rule dist)
    show "p \<in> set (periods db)" by (rule p(1))
    show "\<And>y. (fp_year y = int (date_year d) \<and> fp_month y = int (date_month d))
            \<longleftrightarrow> (fp_year y, fp_month y) = (fp_year p, fp_month p)"
      by (simp add: p(2,3))
  qed
  have inj: "inj_on (\<lambda>p. (fp_year p, fp_month p)) (set (periods db))"
    using dist by (simp add: distinct_map)
  have uniq: "q = p" if "q \<in> set (periods db)" "fp_year q = int (date_year d)"
    "fp_month q = int (date_month d)" for q
  proof (rule inj_onD[OF inj _ that(1) p(1)])
    show "(fp_year q, fp_month q) = (fp_year p, fp_month p)" by (simp add: that p(2,3))
  qed
  have "period_closed db self = is_closed p"
    by (simp add: period_closed_def assms(2) f)
  moreover have "(\<exists>q \<in> set (periods db). fp_year q = int (date_year d)
          \<and> fp_month q = int (date_month d) \<and> is_closed q) = is_closed p"
    using p uniq by blast
  ultimately show ?thesis by simp
next
  case False
  have "first (filter (\<lambda>p. fp_year p = int (date_year d) \<and> fp_month p = int (date_month d))
                      (periods db)) = None"
    unfolding first_filter_None using False by blast
  then have "\<not> period_closed db self" by (simp add: period_closed_def assms(2))
  with False show ?thesis by blast
qed

lemma or_zero_Sum_agg: "or_zero (Sum_agg xs) = sum_list xs"
  by (simp add: or_zero_def Sum_agg_def)

lemma constraints_ok_iff:
  "constraints_ok l \<longleftrightarrow> (0 < debit l \<and> credit l = 0) \<or> (0 < credit l \<and> debit l = 0)"
  by (auto simp: constraints_ok_def chk_no_both_positive_debit_credit_def
      chk_no_both_positive_credit_debit_def chk_must_have_amount_def)

lemma constraints_invariant: "constraints_ok l = line_amount_invariant l"
  by (auto simp: constraints_ok_iff line_amount_invariant_def)

text \<open>Digits and the text of a date.\<close>

lemma of_char_digit_char: "k < 10 \<Longrightarrow> (of_char (digit_char k) :: nat) = 48 + k"
  by (simp add: digit_char_def)

lemma is_digit_digit_char: "k < 10 \<Longrightarrow> is_digit (digit_char k)"
  by (simp add: is_digit_def of_char_digit_char)

lemma digit_val_digit_char: "k < 10 \<Longrightarrow> digit_val (digit_char k) = k"
  by (simp add: digit_val_def of_char_digit_char)

lemma decimal_digits4:
  fixes y :: nat
  assumes "y \<le> 9999"
  shows "10 * (10 * (10 * (y div 1000 mod 10) + y div 100 mod 10) + y div 10 mod 10) + y mod 10 = y"
proof -
  define a where "a = y div 10"
  define b where "b = y div 100"
  define c where "c = y div 1000"
  have ab: "a div 10 = b" by (simp add: a_def b_def div_mult2_eq[symmetric])
  have bc: "b div 10 = c" by (simp add: b_def c_def div_mult2_eq[symmetric])
  have c10: "c < 10" using assms by (simp add: c_def div_less_iff_less_mult)
  define r0 where "r0 = y mod 10"
  define r1 where "r1 = a mod 10"
  define r2 where "r2 = b mod 10"
  have e1: "y = 10 * a + r0" by (simp add: a_def r0_def)
  have e2: "a = 10 * b + r1" using ab[symmetric] by (simp add: r1_def)
  have e3: "b = 10 * c + r2" using bc[symmetric] by (simp add: r2_def)
  have e4: "c mod 10 = c" using c10 by simp
  have "10 * (10 * (10 * c + r2) + r1) + r0 = y"
    by (simp only: e3[symmetric] e2[symmetric] e1[symmetric])
  then have "10 * (10 * (10 * (c mod 10) + r2) + r1) + r0 = y" by (simp only: e4)
  then show ?thesis by (simp only: a_def b_def c_def r0_def r1_def r2_def)
qed

lemma decimal_digits2:
  fixes m :: nat
  assumes "m \<le> 99"
  shows "10 * (m div 10 mod 10) + m mod 10 = m"
proof -
  have "m div 10 < 10" using assms by (simp add: div_less_iff_less_mult)
  then have "m div 10 mod 10 = m div 10" by simp
  then show ?thesis by simp
qed


lemma pad4: "y \<le> 9999 \<Longrightarrow>
  digits_val [digit_char (y div 1000 mod 10), digit_char (y div 100 mod 10),
      digit_char (y div 10 mod 10), digit_char (y mod 10)] = y"
  using decimal_digits4[of y] by (simp add: digits_val_def digit_val_digit_char)

lemma pad2: "m \<le> 99 \<Longrightarrow> digits_val [digit_char (m div 10 mod 10), digit_char (m mod 10)] = m"
  using decimal_digits2[of m] by (simp add: digits_val_def digit_val_digit_char)

lemma days_in_month_le: "days_in_month y m \<le> 31"
  by (simp add: days_in_month_def)

lemma days_in_month_ge: "28 \<le> days_in_month y m"
  by (simp add: days_in_month_def)

lemma fromisoformat_isoformat:
  assumes "valid_date d"
  shows "fromisoformat (isoformat d) = Inr d"
proof -
  from assms have y: "date_year d \<le> 9999" and m: "date_month d \<le> 99" and dd: "date_day d \<le> 99"
    using days_in_month_le[of "date_year d" "date_month d"] by (auto simp: valid_date_def)
  have t4: "take 4 (isoformat d) = [digit_char (date_year d div 1000 mod 10), digit_char (date_year d div 100 mod 10),
      digit_char (date_year d div 10 mod 10), digit_char (date_year d mod 10)]"
    by (simp add: isoformat_def)
  have t2: "take 2 (drop 5 (isoformat d)) = [digit_char (date_month d div 10 mod 10), digit_char (date_month d mod 10)]"
    by (simp add: isoformat_def)
  have t3: "drop 8 (isoformat d) = [digit_char (date_day d div 10 mod 10), digit_char (date_day d mod 10)]"
    by (simp add: isoformat_def)
  have len: "length (isoformat d) = 10" by (simp add: isoformat_def)
  have n4: "isoformat d ! 4 = CHR ''-''" by (simp add: isoformat_def)
  have n7: "isoformat d ! 7 = CHR ''-''" by (simp add: isoformat_def)
  have d: "Date (date_year d) (date_month d) (date_day d) = d" by simp
  show ?thesis
    unfolding fromisoformat_def t4 t2 t3 pad4[OF y] pad2[OF m] pad2[OF dd] d
    using assms by (simp add: len n4 n7 is_digit_digit_char)
qed

lemma isoformat_nonempty: "isoformat d \<noteq> []"
  by (simp add: isoformat_def)

lemma valid_first_day: "valid_date d \<Longrightarrow> valid_date (Date (date_year d) (date_month d) 1)"
  using days_in_month_ge[of "date_year d" "date_month d"] by (simp add: valid_date_def)

lemma date_filter_date_filter:
  "date_filter db q (date_filter db p ls) = date_filter db (\<lambda>d. p d \<and> q d) ls"
  by (auto simp: date_filter_def intro!: filter_cong split: option.splits)

text \<open>Grouped sums and the lines a date filter selects.\<close>

lemma sum_list_delta:
  fixes b :: int
  assumes "distinct ks"
  shows "sum_list (map (\<lambda>k. if a = k then b else 0) ks) = (if a \<in> set ks then b else 0)"
  using assms by (induction ks) auto

lemma sum_list_groups:
  fixes f :: "'a \<Rightarrow> int"
  assumes "distinct ks" and "key ` set xs \<subseteq> set ks"
  shows "sum_list (map (\<lambda>k. sum_list (map f (filter (\<lambda>x. key x = k) xs))) ks) = sum_list (map f xs)"
  using assms(2)
proof (induction xs)
  case Nil
  then show ?case by simp
next
  case (Cons x xs)
  have "sum_list (map (\<lambda>k. sum_list (map f (filter (\<lambda>x. key x = k) (x # xs)))) ks)
      = sum_list (map (\<lambda>k. (if key x = k then f x else 0)
                             + sum_list (map f (filter (\<lambda>x. key x = k) xs))) ks)"
    by (intro arg_cong[where f = sum_list] map_cong) auto
  also have "\<dots> = sum_list (map (\<lambda>k. if key x = k then f x else 0) ks)
                   + sum_list (map (\<lambda>k. sum_list (map f (filter (\<lambda>x. key x = k) xs))) ks)"
    by (simp add: sum_list_addf)
  also have "\<dots> = f x + sum_list (map f xs)"
    using Cons sum_list_delta[OF assms(1), of "key x" "f x"] by simp
  finally show ?case by simp
qed

lemma mizan_loop_eq:
  "mizan_loop qs rows td tc =
     (rows @ map (\<lambda>r. \<lparr>row_code = fst (fst r), row_name = snd (fst r),
                        row_debit = or_zero (fst (snd r)), row_credit = or_zero (snd (snd r)),
                        row_balance = or_zero (fst (snd r)) - or_zero (snd (snd r))\<rparr>) qs,
      td + sum_list (map (\<lambda>r. or_zero (fst (snd r))) qs),
      tc + sum_list (map (\<lambda>r. or_zero (snd (snd r))) qs))"
  by (induction qs arbitrary: rows td tc) (simp_all add: Let_def)

lemma group_sums_debit:
  "sum_list (map (\<lambda>r. or_zero (fst (snd r))) (group_sums key code_of db ls))
     = sum_list (map debit (filter (\<lambda>l. account_of db l \<noteq> None) ls))"
proof -
  define joined where "joined = List.map_filter
      (\<lambda>l. case account_of db l of None \<Rightarrow> None | Some a \<Rightarrow> Some (key a, l)) ls"
  have keys: "distinct (sort_key code_of (remdups (map fst joined)))"
    "fst ` set joined \<subseteq> set (sort_key code_of (remdups (map fst joined)))"
    by simp_all
  have j: "map snd joined = filter (\<lambda>l. account_of db l \<noteq> None) ls"
    unfolding joined_def by (induction ls) (auto simp: List.map_filter_simps split: option.splits)
  have "sum_list (map (\<lambda>r. or_zero (fst (snd r))) (group_sums key code_of db ls))
      = sum_list (map (\<lambda>k. sum_list (map (\<lambda>j. debit (snd j)) (filter (\<lambda>j. fst j = k) joined)))
                   (sort_key code_of (remdups (map fst joined))))"
    by (simp add: group_sums_def Let_def joined_def[symmetric] or_zero_Sum_agg comp_def)
  also have "\<dots> = sum_list (map (\<lambda>j. debit (snd j)) joined)"
    by (rule sum_list_groups[OF keys])
  also have "\<dots> = sum_list (map debit (map snd joined))" by (simp add: comp_def)
  finally show ?thesis by (simp add: j)
qed

lemma group_sums_credit:
  "sum_list (map (\<lambda>r. or_zero (snd (snd r))) (group_sums key code_of db ls))
     = sum_list (map credit (filter (\<lambda>l. account_of db l \<noteq> None) ls))"
proof -
  define joined where "joined = List.map_filter
      (\<lambda>l. case account_of db l of None \<Rightarrow> None | Some a \<Rightarrow> Some (key a, l)) ls"
  have keys: "distinct (sort_key code_of (remdups (map fst joined)))"
    "fst ` set joined \<subseteq> set (sort_key code_of (remdups (map fst joined)))"
    by simp_all
  have j: "map snd joined = filter (\<lambda>l. account_of db l \<noteq> None) ls"
    unfolding joined_def by (induction ls) (auto simp: List.map_filter_simps split: option.splits)
  have "sum_list (map (\<lambda>r. or_zero (snd (snd r))) (group_sums key code_of db ls))
      = sum_list (map (\<lambda>k. sum_list (map (\<lambda>j. credit (snd j)) (filter (\<lambda>j. fst j = k) joined)))
                   (sort_key code_of (remdups (map fst joined))))"
    by (simp add: group_sums_def Let_def joined_def[symmetric] or_zero_Sum_agg comp_def)
  also have "\<dots> = sum_list (map (\<lambda>j. credit (snd j)) joined)"
    by (rule sum_list_groups[OF keys])
  also have "\<dots> = sum_list (map credit (map snd joined))" by (simp add: comp_def)
  finally show ?thesis by (simp add: j)
qed


lemma entry_date_by_id:
  "entry_date db l =
     (case find (\<lambda>e. pk e = Some (entry_id l)) (entries db) of None \<Rightarrow> None | Some e \<Rightarrow> je_date e)"
  by (simp add: entry_date_def entry_of_def)

lemma date_filter_by_id:
  "date_filter db p (filter (\<lambda>l. Q (entry_id l)) ls) =
     filter (\<lambda>l. (Q (entry_id l)
                   \<and> (case (case find (\<lambda>e. pk e = Some (entry_id l)) (entries db) of
                               None \<Rightarrow> None | Some e \<Rightarrow> je_date e) of
                         None \<Rightarrow> False | Some d \<Rightarrow> p d))) ls"
  by (simp add: date_filter_def entry_date_by_id conj_commute)

lemma mizan_end_by_id:
  "\<exists>Q'. mizan_end db end_str (filter (\<lambda>l. Q (entry_id l)) ls) = filter (\<lambda>l. Q' (entry_id l)) ls"
proof (cases "end_str \<noteq> [] \<and> (\<exists>d. fromisoformat end_str = Inr d)")
  case True
  then obtain d where d: "fromisoformat end_str = Inr d" by blast
  have "mizan_end db end_str (filter (\<lambda>l. Q (entry_id l)) ls)
      = date_filter db (\<lambda>x. date_le x d) (filter (\<lambda>l. Q (entry_id l)) ls)"
    using True d by (simp add: mizan_end_def)
  then show ?thesis unfolding date_filter_by_id by (rule exI[where x = "\<lambda>k. Q k \<and> (case (case find (\<lambda>e. pk e = Some k) (entries db) of
                               None \<Rightarrow> None | Some e \<Rightarrow> je_date e) of
                         None \<Rightarrow> False | Some x \<Rightarrow> date_le x d)"])
next
  case False
  then have "mizan_end db end_str (filter (\<lambda>l. Q (entry_id l)) ls) = filter (\<lambda>l. Q (entry_id l)) ls"
    by (cases "fromisoformat end_str") (auto simp: mizan_end_def)
  then show ?thesis by blast
qed

lemma mizan_end_all_by_id:
  "\<exists>Q'. mizan_end db end_str (lines db) = filter (\<lambda>l. Q' (entry_id l)) (lines db)"
  using mizan_end_by_id[of db end_str "\<lambda>k. True" "lines db"] by simp

lemma mizan_lines_by_id:
  "\<exists>Q. mizan_lines db start_str end_str = filter (\<lambda>l. Q (entry_id l)) (lines db)"
proof (cases "start_str \<noteq> []")
  case False
  obtain Q' where Q': "mizan_end db end_str (lines db) = filter (\<lambda>l. Q' (entry_id l)) (lines db)"
    using mizan_end_all_by_id by blast
  have "mizan_lines db start_str end_str = filter (\<lambda>l. Q' (entry_id l)) (lines db)"
    using False by (simp add: mizan_lines_def Q')
  then show ?thesis by (rule exI[where x = Q'])
next
  case True
  show ?thesis
  proof (cases "fromisoformat start_str")
    case (Inl e)
    have "mizan_lines db start_str end_str = filter (\<lambda>l. (\<lambda>k. True) (entry_id l)) (lines db)"
      using True Inl by (simp add: mizan_lines_def)
    then show ?thesis by (rule exI[where x = "\<lambda>k. True"])
  next
    case (Inr d)
    define Q0 where "Q0 = (\<lambda>k. (case (case find (\<lambda>e. pk e = Some k) (entries db) of
                               None \<Rightarrow> None | Some e \<Rightarrow> je_date e) of
                         None \<Rightarrow> False | Some x \<Rightarrow> date_le d x))"
    have "date_filter db (date_le d) (lines db) = filter (\<lambda>l. Q0 (entry_id l)) (lines db)"
      by (simp add: date_filter_def entry_date_by_id Q0_def)
    then have m: "mizan_lines db start_str end_str
          = mizan_end db end_str (filter (\<lambda>l. Q0 (entry_id l)) (lines db))"
      using True Inr by (simp add: mizan_lines_def)
    obtain Q' where Q': "mizan_end db end_str (filter (\<lambda>l. Q0 (entry_id l)) (lines db))
         = filter (\<lambda>l. Q' (entry_id l)) (lines db)"
      using mizan_end_by_id[of db end_str Q0 "lines db"] by blast
    have "mizan_lines db start_str end_str = filter (\<lambda>l. Q' (entry_id l)) (lines db)"
      by (simp only: m Q')
    then show ?thesis by (rule exI[where x = Q'])
  qed
qed

lemma entry_of_Some_pk: "entry_of db l = Some e \<Longrightarrow> e \<in> set (entries db) \<and> pk e = Some (entry_id l)"
  unfolding entry_of_def by (auto simp: find_Some_iff)

lemma balanced_by_id:
  assumes "fk_integrity db" and "ledger_balanced db"
  shows "sum_list (map debit (filter (\<lambda>l. Q (entry_id l)) (lines db)))
       = sum_list (map credit (filter (\<lambda>l. Q (entry_id l)) (lines db)))"
proof -
  define ls where "ls = filter (\<lambda>l. Q (entry_id l)) (lines db)"
  define ks where "ks = remdups (map entry_id ls)"
  have ks: "distinct ks" "entry_id ` set ls \<subseteq> set ks" by (simp_all add: ks_def)
  have inner: "filter (\<lambda>x. entry_id x = k) ls = entry_lines db k" if "k \<in> set ks" for k
  proof -
    from that have "Q k" by (auto simp: ks_def ls_def)
    then show ?thesis
      by (auto simp: ls_def entry_lines_def intro!: filter_cong)
  qed
  have bal: "total_debit db k = total_credit db k" if "k \<in> set ks" for k
  proof -
    from that obtain l where l: "l \<in> set (lines db)" "entry_id l = k"
      by (auto simp: ks_def ls_def)
    with assms(1) obtain e where "entry_of db l = Some e" by (auto simp: fk_integrity_def)
    then have "e \<in> set (entries db)" "pk e = Some k" using entry_of_Some_pk l(2) by auto
    with assms(2) show ?thesis by (auto simp: ledger_balanced_def is_balanced_def)
  qed
  have "sum_list (map debit ls)
      = sum_list (map (\<lambda>k. sum_list (map debit (filter (\<lambda>x. entry_id x = k) ls))) ks)"
    by (rule sum_list_groups[OF ks, symmetric])
  also have "\<dots> = sum_list (map (\<lambda>k. total_debit db k) ks)"
    by (intro arg_cong[where f = sum_list] map_cong refl) (simp add: inner total_debit_def)
  also have "\<dots> = sum_list (map (\<lambda>k. total_credit db k) ks)"
    by (intro arg_cong[where f = sum_list] map_cong refl) (simp add: bal)
  also have "\<dots> = sum_list (map (\<lambda>k. sum_list (map credit (filter (\<lambda>x. entry_id x = k) ls))) ks)"
    by (intro arg_cong[where f = sum_list] map_cong refl) (simp add: inner total_credit_def)
  also have "\<dots> = sum_list (map credit ls)"
    by (rule sum_list_groups[OF ks])
  finally show ?thesis by (simp add: ls_def)
qed

lemma with_account_all:
  assumes "fk_integrity db" and "set ls \<subseteq> set (lines db)"
  shows "filter (\<lambda>l. account_of db l \<noteq> None) ls = ls"
  using assms by (auto simp: fk_integrity_def filter_id_conv)

lemma mizan_report_totals:
  "ctx_total_debit (mizan_report db ls s e)
     = sum_list (map debit (filter (\<lambda>l. account_of db l \<noteq> None) ls))"
  "ctx_total_credit (mizan_report db ls s e)
     = sum_list (map credit (filter (\<lambda>l. account_of db l \<noteq> None) ls))"
  by (simp_all add: mizan_report_def Let_def mizan_loop_eq group_sums_debit group_sums_credit)


text \<open>The loop of the backfill, its writes and the order of the rows it reads.\<close>

lemma length_counters: "length (counters es cur cnt) = length es"
  by (induction es arbitrary: cur cnt) auto

lemma forwards_loop_fold:
  "forwards_loop xs cur cnt tbl =
     fold (\<lambda>p. update_line_no (fst p) (snd p))
       (zip (map jl_id xs) (counters (map entry_id xs) cur cnt)) tbl"
  by (induction xs arbitrary: cur cnt tbl) auto

lemma jl_id_update_line_no: "map jl_id (update_line_no i c tbl) = map jl_id tbl"
  by (simp add: update_line_no_def comp_def)

lemma fold_updates:
  assumes "distinct (map fst asg)"
  shows "fold (\<lambda>p. update_line_no (fst p) (snd p)) asg tbl = map (set_line_no asg) tbl"
  using assms
proof (induction asg arbitrary: tbl)
  case Nil
  then show ?case by (simp add: set_line_no_def)
next
  case (Cons p asg)
  obtain i c where p: "p = (i, c)" by (cases p)
  from Cons.prems p have notin: "i \<notin> fst ` set asg" and d: "distinct (map fst asg)" by auto
  have none: "map_of asg i = None" using notin by (simp add: map_of_eq_None_iff)
  have "fold (\<lambda>p. update_line_no (fst p) (snd p)) (p # asg) tbl
      = map (set_line_no asg) (update_line_no i c tbl)"
    using Cons.IH[OF d] by (simp add: p)
  also have "\<dots> = map (set_line_no (p # asg)) tbl"
    by (auto simp: update_line_no_def set_line_no_def p none split: option.splits)
  finally show ?case .
qed

lemma counters_entry:
  assumes "sorted es" and "\<And>c. cur = Some c \<Longrightarrow> \<forall>x \<in> set es. c \<le> x"
  shows "map snd (filter (\<lambda>p. fst p = e) (zip es (counters es cur cnt)))
       = (if cur = Some e then [cnt + 1 ..< cnt + 1 + length (filter (\<lambda>x. x = e) es)]
          else [1 ..< 1 + length (filter (\<lambda>x. x = e) es)])"
  using assms
proof (induction es arbitrary: cur cnt)
  case Nil
  then show ?case by simp
next
  case (Cons x es)
  have srt: "sorted es" and le: "\<forall>y \<in> set es. x \<le> y" using Cons.prems(1) by auto
  show ?case
  proof (cases "Some x = cur")
    case True
    have pre: "\<And>c. cur = Some c \<Longrightarrow> \<forall>y \<in> set es. c \<le> y" using Cons.prems(2) by auto
    have IH: "map snd (filter (\<lambda>p. fst p = e) (zip es (counters es cur (cnt + 1))))
       = (if cur = Some e then [cnt + 1 + 1 ..< cnt + 1 + 1 + length (filter (\<lambda>x. x = e) es)]
          else [1 ..< 1 + length (filter (\<lambda>x. x = e) es)])"
      by (rule Cons.IH[OF srt pre])
    show ?thesis
    proof (cases "x = e")
      case xe: True
      have "[cnt + 1 ..< cnt + 1 + length (filter (\<lambda>x. x = e) (x # es))]
          = (cnt + 1) # [cnt + 1 + 1 ..< cnt + 1 + 1 + length (filter (\<lambda>x. x = e) es)]"
        using xe by (simp add: upt_conv_Cons del: upt_Suc)
      then show ?thesis using True xe IH by (simp del: upt_Suc)
    next
      case xe: False
      then show ?thesis using True IH by (auto simp del: upt_Suc)
    qed
  next
    case False
    have pre: "\<And>c. Some x = Some c \<Longrightarrow> \<forall>y \<in> set es. c \<le> y" using le by auto
    have IH: "map snd (filter (\<lambda>p. fst p = e) (zip es (counters es (Some x) 1)))
       = (if Some x = Some e then [1 + 1 ..< 1 + 1 + length (filter (\<lambda>x. x = e) es)]
          else [1 ..< 1 + length (filter (\<lambda>x. x = e) es)])"
      by (rule Cons.IH[OF srt pre])
    show ?thesis
    proof (cases "x = e")
      case xe: True
      have "[1 ..< 1 + length (filter (\<lambda>x. x = e) (x # es))]
          = 1 # [1 + 1 ..< 1 + 1 + length (filter (\<lambda>x. x = e) es)]"
        using xe by (simp add: upt_conv_Cons del: upt_Suc)
      then show ?thesis using False xe IH by (simp del: upt_Suc)
    next
      case xe: False
      show ?thesis
      proof (cases "cur = Some e")
        case ce: True
        then have "e \<le> x" using Cons.prems(2) by auto
        with xe le have "\<forall>y \<in> set es. y \<noteq> e" by auto
        then have emp: "filter (\<lambda>x. x = e) es = []" by (simp add: filter_empty_conv)
        show ?thesis using False xe ce IH by (simp add: emp del: upt_Suc)
      next
        case ce: False
        then show ?thesis using False xe IH by (simp del: upt_Suc)
      qed
    qed
  qed
qed

lemma set_line_no_ids [simp]:
  "jl_id (set_line_no asg l) = jl_id l" "entry_id (set_line_no asg l) = entry_id l"
  by (simp_all add: set_line_no_def split: option.splits)

lemma set_line_no_idem: "set_line_no asg (set_line_no asg l) = set_line_no asg l"
  by (simp add: set_line_no_def split: option.splits)

lemma distinct_ids_sorted:
  assumes "line_ids_unique db"
  shows "distinct (map jl_id (sort_key (\<lambda>l. (entry_id l, jl_id l)) (lines db)))"
  using assms by (simp add: line_ids_unique_def distinct_map)

lemma forwards_lines:
  assumes "line_ids_unique db"
  shows "lines (forwards db) = map (set_line_no (assignments db)) (lines db)"
proof -
  have "distinct (map fst (assignments db))"
    using distinct_ids_sorted[OF assms] by (simp add: assignments_def length_counters)
  then show ?thesis
    by (simp add: forwards_def forwards_loop_fold fold_updates assignments_def)
qed

lemma insort_key_map_preserve:
  assumes "\<And>x. f (g x) = f x"
  shows "insort_key f (g x) (map g xs) = map g (insort_key f x xs)"
  by (induction xs) (simp_all add: assms)

lemma sort_key_map_preserve:
  assumes "\<And>x. f (g x) = f x"
  shows "sort_key f (map g xs) = map g (sort_key f xs)"
proof (induction xs)
  case Nil
  then show ?case by simp
next
  case (Cons x xs)
  have "insort_key f (g x) (map g (sort_key f xs)) = map g (insort_key f x (sort_key f xs))"
    using assms by (rule insort_key_map_preserve[where f = f and g = g])
  with Cons show ?case by simp
qed

lemma sorted_entry_ids:
  "sorted (map entry_id (sort_key (\<lambda>l. (entry_id l, jl_id l)) xs))"
proof -
  have "sorted (map (\<lambda>l. (entry_id l, jl_id l)) (sort_key (\<lambda>l. (entry_id l, jl_id l)) xs))"
    by (rule sorted_sort_key)
  then have "sorted_wrt (\<lambda>x y. (entry_id x, jl_id x) \<le> (entry_id y, jl_id y))
               (sort_key (\<lambda>l. (entry_id l, jl_id l)) xs)"
    by (simp add: sorted_map)
  then have "sorted_wrt (\<lambda>x y. entry_id x \<le> entry_id y) (sort_key (\<lambda>l. (entry_id l, jl_id l)) xs)"
    by (rule sorted_wrt_mono_rel[rotated]) (auto simp: less_eq_prod_def)
  then show ?thesis by (simp add: sorted_map)
qed

lemma sorted_ids_of_entry:
  "sorted (map jl_id (filter (\<lambda>l. entry_id l = e) (sort_key (\<lambda>l. (entry_id l, jl_id l)) xs)))"
proof -
  have "sorted (map (\<lambda>l. (entry_id l, jl_id l))
          (filter (\<lambda>l. entry_id l = e) (sort_key (\<lambda>l. (entry_id l, jl_id l)) xs)))"
    by (rule sorted_filter) (rule sorted_sort_key)
  then have "sorted_wrt (\<lambda>x y. (entry_id x, jl_id x) \<le> (entry_id y, jl_id y))
          (filter (\<lambda>l. entry_id l = e) (sort_key (\<lambda>l. (entry_id l, jl_id l)) xs))"
    by (simp add: sorted_map)
  then have "sorted_wrt (\<lambda>x y. jl_id x \<le> jl_id y)
          (filter (\<lambda>l. entry_id l = e) (sort_key (\<lambda>l. (entry_id l, jl_id l)) xs))"
    by (rule sorted_wrt_mono_rel[rotated]) (auto simp: less_eq_prod_def)
  then show ?thesis by (simp add: sorted_map)
qed

lemma lines_of_entry_sorted:
  assumes "distinct (map jl_id xs)"
  shows "sort_key jl_id (filter (\<lambda>l. entry_id l = e) xs)
       = filter (\<lambda>l. entry_id l = e) (sort_key (\<lambda>l. (entry_id l, jl_id l)) xs)"
proof -
  let ?a = "sort_key jl_id (filter (\<lambda>l. entry_id l = e) xs)"
  let ?b = "filter (\<lambda>l. entry_id l = e) (sort_key (\<lambda>l. (entry_id l, jl_id l)) xs)"
  have inj: "inj_on jl_id (set xs)" and dx: "distinct xs"
    using assms by (simp_all add: distinct_map)
  have sets: "set ?a = set ?b" by auto
  have sub: "set ?a \<subseteq> set xs" "set ?b \<subseteq> set xs" by auto
  have "map jl_id ?a = map jl_id ?b"
  proof (rule sorted_distinct_set_unique)
    show "sorted (map jl_id ?a)" by (rule sorted_sort_key)
    show "sorted (map jl_id ?b)" by (rule sorted_ids_of_entry)
    show "distinct (map jl_id ?a)"
      using dx inj sub(1) by (simp add: distinct_map inj_on_subset)
    show "distinct (map jl_id ?b)"
      using dx inj sub(2) by (simp add: distinct_map inj_on_subset)
    show "set (map jl_id ?a) = set (map jl_id ?b)" using sets by simp
  qed
  moreover have "inj_on jl_id (set ?a \<union> set ?b)"
    using inj sub by (auto intro: inj_on_subset)
  ultimately show ?thesis by (simp add: inj_on_map_eq_map)
qed

lemma assigned_of_entry:
  assumes "distinct (map jl_id xs)" and "length cs = length xs"
  shows "map (\<lambda>l. line_no (set_line_no (zip (map jl_id xs) cs) l)) (filter (\<lambda>l. entry_id l = e) xs)
       = map snd (filter (\<lambda>p. fst p = e) (zip (map entry_id xs) cs))"
proof -
  let ?A = "zip (map jl_id xs) cs"
  let ?T = "zip xs cs"
  have dA: "distinct (map fst ?A)" using assms by simp
  have val: "line_no (set_line_no ?A (fst p)) = snd p" if "p \<in> set ?T" for p
  proof -
    have "?A = map (\<lambda>p. (jl_id (fst p), snd p)) ?T"
      by (simp add: zip_map1 split_def)
    then have "set ?A = (\<lambda>p. (jl_id (fst p), snd p)) ` set ?T" by simp
    then have "(jl_id (fst p), snd p) \<in> set ?A"
      using that by blast
    then have "map_of ?A (jl_id (fst p)) = Some (snd p)"
      using dA by (simp add: map_of_is_SomeI)
    then show ?thesis by (simp add: set_line_no_def)
  qed
  have fst_T: "map fst (filter (\<lambda>p. entry_id (fst p) = e) ?T) = filter (\<lambda>l. entry_id l = e) xs"
  proof -
    have "filter (\<lambda>l. entry_id l = e) (map fst ?T) = map fst (filter (\<lambda>p. entry_id (fst p) = e) ?T)"
      by (simp add: filter_map comp_def)
    then show ?thesis using assms(2) by simp
  qed
  have "map (\<lambda>l. line_no (set_line_no ?A l)) (filter (\<lambda>l. entry_id l = e) xs)
      = map (\<lambda>p. line_no (set_line_no ?A (fst p))) (filter (\<lambda>p. entry_id (fst p) = e) ?T)"
    by (simp add: fst_T[symmetric] comp_def)
  also have "\<dots> = map snd (filter (\<lambda>p. entry_id (fst p) = e) ?T)"
    by (rule map_cong[OF refl]) (simp add: val)
  also have "\<dots> = map snd (filter (\<lambda>p. fst p = e) (zip (map entry_id xs) cs))"
    by (simp add: zip_map1 filter_map comp_def split_def)
  finally show ?thesis .
qed

lemma length_of_entry_sorted:
  "length (filter (\<lambda>x. x = e) (map entry_id (sort_key k xs))) = length (filter (\<lambda>l. entry_id l = e) xs)"
proof -
  have "filter (\<lambda>x. x = e) (map entry_id (sort_key k xs))
      = map entry_id (filter (\<lambda>l. entry_id l = e) (sort_key k xs))"
    by (simp add: filter_map comp_def)
  also have "filter (\<lambda>l. entry_id l = e) (sort_key k xs) = sort_key k (filter (\<lambda>l. entry_id l = e) xs)"
    by (rule filter_sort)
  finally show ?thesis by simp
qed

lemma forwards_entry_numbers:
  assumes "line_ids_unique db"
  shows "map line_no (sort_key jl_id (filter (\<lambda>l. entry_id l = e) (lines (forwards db))))
       = [1 ..< 1 + length (filter (\<lambda>l. entry_id l = e) (lines db))]"
proof -
  let ?k = "\<lambda>l. (entry_id l, jl_id l)"
  let ?S = "sort_key ?k (lines db)"
  let ?cs = "counters (map entry_id ?S) None 0"
  let ?upd = "set_line_no (assignments db)"
  have dl: "distinct (map jl_id (lines db))" using assms by (simp add: line_ids_unique_def)
  have dS: "distinct (map jl_id ?S)" by (rule distinct_ids_sorted[OF assms])
  have len: "length ?cs = length ?S" by (simp add: length_counters)
  have "filter (\<lambda>l. entry_id l = e) (lines (forwards db))
      = map ?upd (filter (\<lambda>l. entry_id l = e) (lines db))"
    by (simp add: forwards_lines[OF assms] filter_map comp_def)
  then have "sort_key jl_id (filter (\<lambda>l. entry_id l = e) (lines (forwards db)))
      = map ?upd (sort_key jl_id (filter (\<lambda>l. entry_id l = e) (lines db)))"
    by (simp add: sort_key_map_preserve)
  also have "\<dots> = map ?upd (filter (\<lambda>l. entry_id l = e) ?S)"
    by (simp only: lines_of_entry_sorted[OF dl])
  finally have "map line_no (sort_key jl_id (filter (\<lambda>l. entry_id l = e) (lines (forwards db))))
      = map (\<lambda>l. line_no (?upd l)) (filter (\<lambda>l. entry_id l = e) ?S)"
    by (simp add: comp_def)
  also have "\<dots> = map snd (filter (\<lambda>p. fst p = e) (zip (map entry_id ?S) ?cs))"
    unfolding assignments_def by (rule assigned_of_entry[OF dS len])
  also have "\<dots> = [1 ..< 1 + length (filter (\<lambda>x. x = e) (map entry_id ?S))]"
    using counters_entry[of "map entry_id ?S" None e 0] sorted_entry_ids[of "lines db"] by simp
  finally show ?thesis by (simp only: length_of_entry_sorted)
qed

lemma forwards_unique: "line_ids_unique db \<Longrightarrow> line_ids_unique (forwards db)"
  by (simp add: line_ids_unique_def forwards_lines comp_def)

lemma assignments_forwards:
  assumes "line_ids_unique db"
  shows "assignments (forwards db) = assignments db"
proof -
  have "sort_key (\<lambda>l. (entry_id l, jl_id l)) (lines (forwards db))
      = map (set_line_no (assignments db)) (sort_key (\<lambda>l. (entry_id l, jl_id l)) (lines db))"
    by (simp add: forwards_lines[OF assms] sort_key_map_preserve)
  then show ?thesis by (simp add: assignments_def[of "forwards db"] comp_def) (simp add: assignments_def)
qed

lemma forwards_idem:
  assumes "line_ids_unique db"
  shows "forwards (forwards db) = forwards db"
proof -
  have "lines (forwards (forwards db)) = lines (forwards db)"
    by (simp add: forwards_lines[OF forwards_unique[OF assms]] assignments_forwards[OF assms]
        forwards_lines[OF assms] set_line_no_idem comp_def)
  moreover have "forwards (forwards db) = (forwards db)\<lparr>lines := lines (forwards (forwards db))\<rparr>"
    by (simp add: forwards_def)
  ultimately show ?thesis by simp
qed

text \<open>The loop of the income statement and its grouped rows in the scenarios.\<close>

lemma income_loop_eq:
  "income_loop qs st =
     \<lparr>ia_incomes = ia_incomes st
        @ map (\<lambda>r. income_line r (income_amount r))
            (filter (\<lambda>r. row_is_income r \<and> income_amount r \<noteq> 0) qs),
      ia_expenses = ia_expenses st
        @ map (\<lambda>r. income_line r (expense_amount r))
            (filter (\<lambda>r. \<not> row_is_income r \<and> row_is_expense r \<and> expense_amount r \<noteq> 0) qs),
      ia_total_income = ia_total_income st
        + sum_list (map income_amount (filter row_is_income qs)),
      ia_total_expense = ia_total_expense st
        + sum_list (map expense_amount (filter (\<lambda>r. \<not> row_is_income r \<and> row_is_expense r) qs))\<rparr>"
proof (induction qs arbitrary: st)
  case Nil
  then show ?case by simp
next
  case (Cons r qs)
  show ?case
    by (simp add: Cons.IH Let_def row_is_income_def row_is_expense_def income_amount_def
        expense_amount_def income_line_def)
qed

lemma mk_date_year:
  assumes "1 \<le> year" and "year \<le> 9999"
  shows "mk_date year 1 1 = Inr (Date (nat year) 1 1)"
    and "mk_date year 12 31 = Inr (Date (nat year) 12 31)"
proof -
  from assms have n: "Suc 0 \<le> nat year" "nat year \<le> 9999" by linarith+
  show "mk_date year 1 1 = Inr (Date (nat year) 1 1)"
    using assms n by (simp add: mk_date_def valid_date_def days_in_month_def)
  show "mk_date year 12 31 = Inr (Date (nat year) 12 31)"
    using assms n by (simp add: mk_date_def valid_date_def days_in_month_def)
qed

lemma mk_date_2026:
  "mk_date 2026 1 1 = Inr (Date 2026 1 1)" "mk_date 2026 12 31 = Inr (Date 2026 12 31)"
  by (simp_all add: mk_date_def valid_date_def days_in_month_def)

lemma c7_qs: "income_qs c7_db (Date 2026 1 1) (Date 2026 12 31) =
   [((''100'', ''Cash'', ASSET), Some 10000, Some 0), ((''700'', ''Refunds'', INCOME), Some 0, Some 10000)]"
  by (simp add: income_qs_def group_sums_def c7_db_def account_of_def date_filter_def entry_date_def
      entry_of_def date_le_def List.map_filter_simps Sum_agg_def less_eq_char_def less_char_def)

lemma scenario_qs: "income_qs scenario_db (Date 2026 1 1) (Date 2026 12 31) =
   [((''100'', ''Cash'', ASSET), Some 120000, Some 5000),
    ((''500'', ''Capital'', EQUITY), Some 0, Some 100000),
    ((''600'', ''Sales'', INCOME), Some 0, Some 20000),
    ((''700'', ''Rent'', EXPENSE), Some 5000, Some 0)]"
  by (simp add: income_qs_def group_sums_def scenario_db_def account_of_def date_filter_def entry_date_def
      entry_of_def date_le_def List.map_filter_simps Sum_agg_def less_eq_char_def less_char_def)

text \<open>
  The two bounds in the two views: in \<open>mizan\<close> a start that does not parse leaves
  all lines, whatever the end is; in the journal list a start that is no date leaves
  the end bound in force.
\<close>

lemma mizan_lines_malformed_start:
  "start_str \<noteq> [] \<Longrightarrow> fromisoformat start_str = Inl err
     \<Longrightarrow> mizan_lines db start_str end_str = lines db"
  by (simp add: mizan_lines_def)

lemma get_queryset_unparsable_start:
  "parse_date s = Inr None
     \<Longrightarrow> get_queryset parse_date db (Some s) end_str = get_queryset parse_date db None end_str"
  by (simp add: get_queryset_def)








section \<open>Validation of journal entries\<close>

text \<open>
  C1 (as the code has it): \<open>clean\<close> fails with \<open>UnbalancedEntryError\<close> exactly for an
  entry that exists already (its primary key is set), whose status is POSTED, whose date
  is not in a closed period and whose stored lines have a debit total different from
  their credit total. A new entry (no primary key) passes the balance check whatever
  its status.
\<close>

theorem clean_unbalanced_iff:
  "clean db self = Inl UnbalancedEntryError \<longleftrightarrow>
     (\<not> period_closed db self
      \<and> (\<exists>k. pk self = Some k \<and> k \<noteq> 0 \<and> status self = POSTED
              \<and> total_debit db k \<noteq> total_credit db k))"
  by (auto simp: clean_def split: option.splits)

text \<open>
  The update of the stored POSTED entry of the ledger \<open>c1_db2\<close>, whose lines are not
  balanced, fails with \<open>UnbalancedEntryError\<close>.
\<close>

theorem clean_unbalanced_witness:
  "clean c1_db2 (c1_entry\<lparr>pk := Some 1\<rparr>) = Inl UnbalancedEntryError"
  using clean_unbalanced_iff[of c1_db2 "c1_entry\<lparr>pk := Some 1\<rparr>"]
  by (simp add: c1_db0_def c1_entry_def c1_line_def c1_db1_def c1_db2_def
      period_closed_def first_def total_debit_def total_credit_def entry_lines_def)

text \<open>
  C1 as stated fails: a new entry submitted as POSTED passes \<open>clean\<close> and is stored, a
  line is then written for it (a line write validates no entry), and the ledger holds a
  POSTED entry with a debit total of 1000.00 and a credit total of 0.
\<close>

theorem posted_unbalanced_reachable:
  "clean c1_db0 c1_entry = Inr ()
   \<and> save_entry c1_db0 c1_entry = Inr c1_db1
   \<and> save_line c1_db1 c1_line = Inr c1_db2
   \<and> map pk (entries c1_db2) = [Some 1]
   \<and> map status (entries c1_db2) = [POSTED]
   \<and> total_debit c1_db2 1 = 100000
   \<and> total_credit c1_db2 1 = 0"
  by (simp add: c1_db0_def c1_entry_def c1_line_def c1_db1_def c1_db2_def clean_def
      period_closed_def first_def save_entry_def has_pk_def next_pk_def save_line_def
      constraints_ok_def chk_no_both_positive_debit_credit_def
      chk_no_both_positive_credit_debit_def chk_must_have_amount_def
      total_debit_def total_credit_def entry_lines_def)

text \<open>
  C2: for an entry with a date, \<open>clean\<close> fails with \<open>PeriodClosedError\<close> exactly when a
  FiscalPeriod record of the date's year and month exists and is closed, whatever the
  entry's status and whether it is new or stored. The records are unique per year and
  month, as the table's \<open>unique_together\<close> has it.
\<close>

theorem clean_period_closed:
  assumes "period_unique db" and "je_date self = Some d"
  shows "clean db self = Inl PeriodClosedError \<longleftrightarrow>
     (\<exists>p \<in> set (periods db). fp_year p = int (date_year d)
          \<and> fp_month p = int (date_month d) \<and> is_closed p)"
  using period_closed_iff[OF assms]
  by (auto simp: clean_def split: option.splits)

text \<open>A draft entry dated 2026-01-15 is refused once January 2026 is closed.\<close>

theorem clean_period_closed_witness:
  "period_unique c2_db \<and> je_date c2_entry = Some (Date 2026 1 15)
   \<and> clean c2_db c2_entry = Inl PeriodClosedError"
proof -
  have u: "period_unique c2_db" by (simp add: period_unique_def c2_db_def)
  have d: "je_date c2_entry = Some (Date 2026 1 15)" by (simp add: c2_entry_def)
  have "\<exists>p \<in> set (periods c2_db). fp_year p = int (date_year (Date 2026 1 15))
          \<and> fp_month p = int (date_month (Date 2026 1 15)) \<and> is_closed p"
    by (simp add: c2_db_def)
  then have "clean c2_db c2_entry = Inl PeriodClosedError"
    using clean_period_closed[OF u d] by blast
  with u d show ?thesis by blast
qed

section \<open>Account balances\<close>




section \<open>Line amounts\<close>

text \<open>
  C4: the three check constraints of the line table say that debit and credit are not
  negative, not both positive and not both zero, that is, exactly one is positive and
  the other is zero; a line write that breaks this is refused whatever the ledger
  holds, and an accepted write keeps it for every stored line.
\<close>

theorem save_line_invariant:
  "constraints_ok l = line_amount_invariant l
   \<and> (\<not> line_amount_invariant l \<longrightarrow> save_line db l = Inl LineAmountInvariantError)
   \<and> ((\<forall>x \<in> set (lines db). line_amount_invariant x) \<and> save_line db l = Inr db'
        \<longrightarrow> (\<forall>x \<in> set (lines db'). line_amount_invariant x))"
  by (auto simp: constraints_invariant save_line_def split: if_splits)

text \<open>
  The debit line of 1000.00 is accepted and the stored lines keep the invariant; the
  same line with a credit of 0.05 beside its debit is refused.
\<close>

theorem save_line_invariant_witness:
  "line_amount_invariant c1_line
   \<and> save_line c1_db1 c1_line = Inr c1_db2
   \<and> list_all line_amount_invariant (lines c1_db2)
   \<and> save_line c1_db1 (c1_line\<lparr>credit := 5\<rparr>) = Inl LineAmountInvariantError"
proof -
  have inv: "line_amount_invariant c1_line"
    by (simp add: line_amount_invariant_def c1_line_def)
  have sv: "save_line c1_db1 c1_line = Inr c1_db2"
    using inv save_line_invariant[of c1_line c1_db1 c1_db2]
    by (simp add: save_line_def c1_db0_def c1_entry_def c1_line_def c1_db1_def c1_db2_def)
  have emp: "\<forall>x \<in> set (lines c1_db1). line_amount_invariant x"
    by (simp add: c1_db1_def c1_db0_def)
  have all: "list_all line_amount_invariant (lines c1_db2)"
    using save_line_invariant[of c1_line c1_db1 c1_db2] emp sv
    by (simp add: list_all_iff)
  have bad: "\<not> line_amount_invariant (c1_line\<lparr>credit := 5\<rparr>)"
    by (simp add: line_amount_invariant_def c1_line_def)
  have ref: "save_line c1_db1 (c1_line\<lparr>credit := 5\<rparr>) = Inl LineAmountInvariantError"
    using save_line_invariant[of "c1_line\<lparr>credit := 5\<rparr>" c1_db1 c1_db2] bad by blast
  from inv sv all ref show ?thesis by blast
qed

section \<open>Trial balance\<close>

text \<open>The scenario ledger: its foreign keys, its balance, and the window of June 2026.\<close>

lemma scenario_fk: "fk_integrity scenario_db"
  by (simp add: fk_integrity_def scenario_db_def entry_of_def account_of_def)

lemma scenario_balanced: "ledger_balanced scenario_db"
  by (simp add: ledger_balanced_def scenario_db_def is_balanced_def total_debit_def
      total_credit_def entry_lines_def)

lemma scenario_today: "valid_date (Date 2026 6 15)"
  by (simp add: valid_date_def days_in_month_def)

lemma scenario_window:
  "date_filter scenario_db (\<lambda>d. date_le (Date 2026 6 1) d \<and> date_le d (Date 2026 6 15))
     (lines scenario_db) = drop 2 (lines scenario_db)"
  by (simp add: date_filter_def entry_date_def entry_of_def date_le_def scenario_db_def)

lemma scenario_report:
  "mizan_report scenario_db (drop 2 (lines scenario_db)) s e =
  \<lparr>ctx_rows =
    [\<lparr>row_code = ''100'', row_name = ''Cash'', row_debit = 20000,
        row_credit = 5000, row_balance = 15000\<rparr>,
     \<lparr>row_code = ''600'', row_name = ''Sales'', row_debit = 0,
        row_credit = 20000, row_balance = - 20000\<rparr>,
     \<lparr>row_code = ''700'', row_name = ''Rent'', row_debit = 5000,
        row_credit = 0, row_balance = 5000\<rparr>],
    ctx_total_debit = 25000, ctx_total_credit = 25000,
    ctx_total_balance = 0, ctx_start = s,
    ctx_end = e, ctx_rows_count = 3, ctx_lines_count = 4\<rparr>"
  by (simp add: mizan_report_def group_sums_def scenario_db_def account_of_def
      List.map_filter_simps Sum_agg_def or_zero_def less_eq_char_def less_char_def)

lemma parse_march_end: "fromisoformat ''2026-03-31'' = Inr (Date 2026 3 31)"
  by (simp add: fromisoformat_def is_digit_def digits_val_def digit_val_def valid_date_def
      days_in_month_def)

lemma parse_january_first: "fromisoformat ''2026-01-01'' = Inr (Date 2026 1 1)"
  by (simp add: fromisoformat_def is_digit_def digits_val_def digit_val_def valid_date_def
      days_in_month_def)

lemma parse_abc: "fromisoformat ''abc'' = Inl ValueError"
  by (simp add: fromisoformat_def)

text \<open>
  C5: in a ledger whose entries are each balanced (and whose lines have their entry and
  their account, as the foreign keys demand), the trial balance of every request, whatever
  its start and end parameters and the current date, has a grand total of debits equal
  to its grand total of credits.
\<close>

theorem mizan_totals_equal:
  assumes "fk_integrity db" and "ledger_balanced db"
  shows "ctx_total_debit (mizan db today start end_p) = ctx_total_credit (mizan db today start end_p)"
proof -
  define s where "s = get_or start (isoformat (Date (date_year today) (date_month today) 1))"
  define e where "e = get_or end_p (isoformat today)"
  obtain Q where Q: "mizan_lines db s e = filter (\<lambda>l. Q (entry_id l)) (lines db)"
    using mizan_lines_by_id by blast
  have sub: "set (mizan_lines db s e) \<subseteq> set (lines db)" by (simp add: Q)
  have m: "mizan db today start end_p = mizan_report db (mizan_lines db s e) s e"
    by (simp add: mizan_def Let_def s_def e_def)
  show ?thesis
    unfolding m mizan_report_totals with_account_all[OF assms(1) sub]
    unfolding Q by (rule balanced_by_id[OF assms])
qed

text \<open>The scenario ledger over the year 2026.\<close>

theorem mizan_totals_equal_witness:
  "fk_integrity scenario_db \<and> ledger_balanced scenario_db
   \<and> ctx_total_debit (mizan scenario_db (Date 2026 6 15) (Some ''2026-01-01'') (Some ''2026-12-31''))
     = ctx_total_credit (mizan scenario_db (Date 2026 6 15) (Some ''2026-01-01'') (Some ''2026-12-31''))"
  using mizan_totals_equal[OF scenario_fk scenario_balanced, of "Date 2026 6 15" "Some ''2026-01-01''" "Some ''2026-12-31''"]
    scenario_fk scenario_balanced by blast

text \<open>
  C9 (the code at a failing input): with the malformed start \<open>abc\<close> and the well-formed
  end \<open>2026-03-31\<close> the trial balance is taken over all six lines of the ledger, with a
  debit total of 1250.00: the end bound is not applied. With a well-formed start the
  same end bound leaves the two lines of the entry of 2026-03-01.
\<close>

theorem mizan_malformed_start_drops_end:
  "map jl_id (mizan_lines scenario_db ''2026-01-01'' ''2026-03-31'') = [1, 2]
   \<and> map jl_id (mizan_lines scenario_db ''abc'' ''2026-03-31'') = [1, 2, 3, 4, 5, 6]
   \<and> ctx_lines_count (mizan scenario_db (Date 2026 6 15) (Some ''abc'') (Some ''2026-03-31'')) = 6
   \<and> ctx_total_debit (mizan scenario_db (Date 2026 6 15) (Some ''abc'') (Some ''2026-03-31'')) = 125000"
proof -
  have a: "map jl_id (mizan_lines scenario_db ''2026-01-01'' ''2026-03-31'') = [1, 2]"
    by (simp add: mizan_lines_def mizan_end_def parse_march_end parse_january_first
        date_filter_def entry_date_def entry_of_def date_le_def scenario_db_def)
  have b: "mizan_lines scenario_db ''abc'' ''2026-03-31'' = lines scenario_db"
    by (simp add: mizan_lines_def parse_abc)
  have c: "map jl_id (lines scenario_db) = [1, 2, 3, 4, 5, 6]"
    by (simp add: scenario_db_def)
  have d: "mizan scenario_db (Date 2026 6 15) (Some ''abc'') (Some ''2026-03-31'')
      = mizan_report scenario_db (lines scenario_db) ''abc'' ''2026-03-31''"
    by (simp add: mizan_def Let_def get_or_def b)
  have e: "ctx_lines_count (mizan_report scenario_db (lines scenario_db) ''abc'' ''2026-03-31'') = 6"
    by (simp add: mizan_report_def Let_def split_def scenario_db_def)
  have f: "ctx_total_debit (mizan_report scenario_db (lines scenario_db) ''abc'' ''2026-03-31'') = 125000"
    unfolding mizan_report_totals by (simp add: scenario_db_def account_of_def)
  show ?thesis by (simp only: a b c d e f simp_thms)
qed

text \<open>
  C10: with neither a start nor an end parameter the trial balance is the report over
  the lines whose entry is dated from the first day of the current month to today,
  for every valid current date.
\<close>

theorem mizan_default_window:
  assumes "valid_date today"
  shows "mizan db today None None =
     mizan_report db
       (date_filter db (\<lambda>d. date_le (Date (date_year today) (date_month today) 1) d \<and> date_le d today)
          (lines db))
       (isoformat (Date (date_year today) (date_month today) 1)) (isoformat today)"
proof -
  define first_day where "first_day = Date (date_year today) (date_month today) 1"
  have vf: "valid_date first_day"
    unfolding first_day_def by (rule valid_first_day[OF assms])
  have g: "get_or None x = x" for x by (simp add: get_or_def)
  have ml: "mizan_lines db (isoformat first_day) (isoformat today)
      = date_filter db (\<lambda>d. date_le first_day d \<and> date_le d today) (lines db)"
    by (simp add: mizan_lines_def mizan_end_def isoformat_nonempty fromisoformat_isoformat[OF vf]
        fromisoformat_isoformat[OF assms] date_filter_date_filter)
  show ?thesis
    unfolding mizan_def Let_def g first_day_def[symmetric] ml by (rule refl)
qed

text \<open>
  On 2026-06-15 the default window holds the four lines of the entries of June; the
  entry of 2026-03-01 is left out.
\<close>

theorem mizan_default_window_witness:
  "valid_date (Date 2026 6 15)
   \<and> ctx_lines_count (mizan scenario_db (Date 2026 6 15) None None) = 4
   \<and> map row_code (ctx_rows (mizan scenario_db (Date 2026 6 15) None None)) = [''100'', ''600'', ''700'']
   \<and> ctx_total_debit (mizan scenario_db (Date 2026 6 15) None None) = 25000
   \<and> ctx_total_credit (mizan scenario_db (Date 2026 6 15) None None) = 25000"
proof -
  have "mizan scenario_db (Date 2026 6 15) None None =
     mizan_report scenario_db
       (date_filter scenario_db (\<lambda>d. date_le (Date 2026 6 1) d \<and> date_le d (Date 2026 6 15))
          (lines scenario_db))
       (isoformat (Date 2026 6 1)) (isoformat (Date 2026 6 15))"
    using mizan_default_window[OF scenario_today, of scenario_db] by simp
  then have "mizan scenario_db (Date 2026 6 15) None None =
     mizan_report scenario_db (drop 2 (lines scenario_db))
       (isoformat (Date 2026 6 1)) (isoformat (Date 2026 6 15))"
    by (simp only: scenario_window)
  then show ?thesis by (simp add: scenario_report scenario_today)
qed

section \<open>Balance sheet\<close>

text \<open>
  C6: the balance sheet of the reconciliation scenario for the year 2026 (amounts in
  hundredths): assets 100 with 1150.00, no liabilities, equity 500 with 1000.00 and the
  synthetic line DNET with 150.00, both totals 1150.00, match true, net result 150.00.
\<close>

theorem generate_balance_scenario:
  "generate_balance scenario_db 2026 =
  Inr \<lparr>bs_assets = [\<lparr>br_code = ''100'', br_name = ''Cash'', br_balance = 115000\<rparr>],
       bs_liabilities = [],
       bs_equities = [\<lparr>br_code = ''500'', br_name = ''Capital'', br_balance = 100000\<rparr>,
                      \<lparr>br_code = ''DNET'', br_name = DNET_name, br_balance = 15000\<rparr>],
       bs_total_assets = 115000, bs_total_liabilities_equity = 115000,
       bs_match = True, bs_net_result = 15000\<rparr>"
  by (simp add: generate_balance_def account_balance_until_def mk_date_def valid_date_def
      days_in_month_def date_filter_def entry_date_def entry_of_def date_le_def
      Sum_agg_def or_zero_def scenario_db_def less_eq_char_def less_char_def)

section \<open>Backfill of line numbers\<close>

text \<open>
  C8: after \<open>forwards\<close> on a ledger whose line ids are unique (they are the primary
  key), the lines of every entry \<open>e\<close>, taken in the order of their ids, carry the
  numbers 1, 2, ..., N, where N is the number of lines of the entry; so the set of the
  entry's numbers is {1, ..., N} with no gap and no duplicate. A second run changes
  nothing.
\<close>

theorem forwards_numbers_lines:
  assumes "line_ids_unique db"
  shows "map line_no (sort_key jl_id (filter (\<lambda>l. entry_id l = e) (lines (forwards db))))
           = [1 ..< 1 + length (filter (\<lambda>l. entry_id l = e) (lines db))]
         \<and> line_no ` {l \<in> set (lines (forwards db)). entry_id l = e}
           = {1 .. length (filter (\<lambda>l. entry_id l = e) (lines db))}
         \<and> length (filter (\<lambda>l. entry_id l = e) (lines (forwards db)))
           = length (filter (\<lambda>l. entry_id l = e) (lines db))
         \<and> forwards (forwards db) = forwards db"
proof -
  let ?N = "length (filter (\<lambda>l. entry_id l = e) (lines db))"
  have a: "map line_no (sort_key jl_id (filter (\<lambda>l. entry_id l = e) (lines (forwards db))))
           = [1 ..< 1 + ?N]"
    by (rule forwards_entry_numbers[OF assms])
  have s1: "set (map line_no (sort_key jl_id (filter (\<lambda>l. entry_id l = e) (lines (forwards db)))))
      = line_no ` {l \<in> set (lines (forwards db)). entry_id l = e}"
    by simp
  have s2: "set [1 ..< 1 + ?N] = {1 .. ?N}"
    unfolding set_upt by auto
  have b: "line_no ` {l \<in> set (lines (forwards db)). entry_id l = e} = {1 .. ?N}"
    by (simp only: s1[symmetric] a s2)
  have c: "length (filter (\<lambda>l. entry_id l = e) (lines (forwards db))) = ?N"
    by (simp add: forwards_lines[OF assms] filter_map comp_def)
  from a b c forwards_idem[OF assms] show ?thesis by blast
qed

text \<open>
  The four lines of \<open>c8_db\<close>: lines 1 and 4 of entry 1 get 1 and 2, lines 2 and 3 of
  entry 2 get 1 and 2.
\<close>

theorem forwards_numbers_lines_witness:
  "line_ids_unique c8_db
   \<and> map (\<lambda>l. (jl_id l, entry_id l, line_no l)) (lines (forwards c8_db))
       = [(3, 2, 2), (1, 1, 1), (2, 2, 1), (4, 1, 2)]
   \<and> map line_no (sort_key jl_id (filter (\<lambda>l. entry_id l = 2) (lines (forwards c8_db)))) = [1, 2]
   \<and> forwards (forwards c8_db) = forwards c8_db"
proof -
  have u: "line_ids_unique c8_db"
    by (simp add: line_ids_unique_def c8_db_def)
  have ev: "map (\<lambda>l. (jl_id l, entry_id l, line_no l)) (lines (forwards c8_db))
       = [(3, 2, 2), (1, 1, 1), (2, 2, 1), (4, 1, 2)]"
    by (simp add: forwards_def c8_db_def update_line_no_def less_eq_prod_def)
  have n: "[1 ..< 1 + length (filter (\<lambda>l. entry_id l = 2) (lines c8_db))] = [1, 2]"
    by (simp add: c8_db_def upt_rec)
  from forwards_numbers_lines[OF u, of 2] u ev n show ?thesis by simp
qed

section \<open>Income statement\<close>

text \<open>
  C7 (as the code has it): for a year that \<open>date\<close> can hold, the income statement
  goes through the grouped rows of the year (one per account with lines in the year,
  with the sums of its debits and credits). A row is income when its code starts with 6
  or its type is INCOME; it is expense when it is not income and its code starts with 7
  or its type is EXPENSE: where both rules match, income wins, whether it matched by
  code or by type. Rows matching neither are left out. The income amount is credit
  minus debit, the expense amount debit minus credit, rows with amount zero give no
  line item, net_result is total_income - total_expense and is_profit says that it is
  not negative.
\<close>

theorem income_statement_classification:
  assumes "1 \<le> year" and "year \<le> 9999"
  shows "generate_income_statement db year =
     (let qs = income_qs db (Date (nat year) 1 1) (Date (nat year) 12 31);
          total_income = sum_list (map income_amount (filter row_is_income qs));
          total_expense = sum_list (map expense_amount
                             (filter (\<lambda>r. \<not> row_is_income r \<and> row_is_expense r) qs))
      in Inr \<lparr>ist_year = year,
              ist_incomes = map (\<lambda>r. income_line r (income_amount r))
                              (filter (\<lambda>r. row_is_income r \<and> income_amount r \<noteq> 0) qs),
              ist_expenses = map (\<lambda>r. income_line r (expense_amount r))
                              (filter (\<lambda>r. \<not> row_is_income r \<and> row_is_expense r
                                            \<and> expense_amount r \<noteq> 0) qs),
              ist_total_income = total_income,
              ist_total_expense = total_expense,
              ist_net_result = total_income - total_expense,
              ist_is_profit = (0 \<le> total_income - total_expense)\<rparr>)"
  by (simp add: generate_income_statement_def mk_date_year[OF assms] income_loop_eq Let_def)

text \<open>
  The income statement of the reconciliation scenario for 2026: incomes 600 with
  200.00, expenses 700 with 50.00, net result 150.00, a profit.
\<close>

theorem income_statement_classification_witness:
  "generate_income_statement scenario_db 2026 =
       Inr \<lparr>ist_year = 2026,
            ist_incomes = [\<lparr>ir_code = ''600'', ir_name = ''Sales'', ir_amount = 20000\<rparr>],
            ist_expenses = [\<lparr>ir_code = ''700'', ir_name = ''Rent'', ir_amount = 5000\<rparr>],
            ist_total_income = 20000, ist_total_expense = 5000,
            ist_net_result = 15000, ist_is_profit = True\<rparr>"
proof -
  have y: "(1::int) \<le> 2026" "(2026::int) \<le> 9999" by simp_all
  have n: "nat 2026 = 2026" by simp
  note th = income_statement_classification[OF y, of scenario_db, unfolded n scenario_qs]
  from th show ?thesis
    by (simp add: Let_def row_is_income_def row_is_expense_def income_amount_def
        expense_amount_def income_line_def is_income_def is_expense_def startswith_def or_zero_def)
qed

text \<open>
  C7 as stated fails: the account 700 of type INCOME matches the expense rule by its
  code and the income rule by its type; the code prefix does not take precedence, the
  account is listed as income with 100.00 and the expenses are empty.
\<close>

theorem prefix_7_income_type_is_income:
  "is_expense ''700'' INCOME \<and> is_income ''700'' INCOME
   \<and> generate_income_statement c7_db 2026 =
       Inr \<lparr>ist_year = 2026,
            ist_incomes = [\<lparr>ir_code = ''700'', ir_name = ''Refunds'', ir_amount = 10000\<rparr>],
            ist_expenses = [],
            ist_total_income = 10000, ist_total_expense = 0,
            ist_net_result = 10000, ist_is_profit = True\<rparr>"
proof -
  have "generate_income_statement c7_db 2026 =
       Inr \<lparr>ist_year = 2026,
            ist_incomes = [\<lparr>ir_code = ''700'', ir_name = ''Refunds'', ir_amount = 10000\<rparr>],
            ist_expenses = [],
            ist_total_income = 10000, ist_total_expense = 0,
            ist_net_result = 10000, ist_is_profit = True\<rparr>"
    unfolding generate_income_statement_def mk_date_2026 sum.case c7_qs
    by (simp add: is_income_def is_expense_def startswith_def or_zero_def Let_def)
  then show ?thesis by (simp add: is_income_def is_expense_def startswith_def)
qed

end
